theory Spec2Isabelle
  imports Complex_Main
begin

section \<open>transferSkinCluster: the weight file codec\<close>

text \<open>
  A shallow embedding of \<^verbatim>\<open>transferSkinCluster.py\<close>: the command's \<^verbatim>\<open>doIt\<close>,
  the exporter \<^verbatim>\<open>writeWeights\<close> and the importer \<^verbatim>\<open>readWeights\<close>.
  Python integers are \<open>int\<close>, weights are \<open>real\<close>, strings are \<open>string\<close>.
  Every call into the host (Maya) that changes something, every message and every file
  operation is an \<open>effect\<close>; a function returns the list of its effects in the order they
  happen, together with what the Python function returns.
\<close>

subsection \<open>Strings: \<^verbatim>\<open>str.split\<close> and \<^verbatim>\<open>str.join\<close>\<close>

text \<open>
  \<^verbatim>\<open>s.split(sep)\<close> for a one-character separator: the result is never empty, and two
  adjacent separators enclose an empty string.
\<close>

fun split_on :: "char \<Rightarrow> string \<Rightarrow> string list" where
  "split_on c [] = [[]]"
| "split_on c (x # xs) =
     (if x = c then [] # split_on c xs
      else (x # hd (split_on c xs)) # tl (split_on c xs))"

fun join_with :: "string \<Rightarrow> string list \<Rightarrow> string" where
  "join_with sep [] = []"
| "join_with sep [l] = l"
| "join_with sep (l # m # ls) = l @ sep @ join_with sep (m # ls)"

definition nl :: char where
  "nl = CHR 0x0A"

definition sp :: char where
  "sp = CHR '' ''"

subsection \<open>Python values\<close>

text \<open>
  The values that \<^verbatim>\<open>eval\<close> of a line can give and that the importer computes with:
  integers, floats, strings, lists of values, and \<open>PNone\<close> for any value that can be
  neither subscripted nor counted with.
\<close>

datatype pyval = PInt int | PFloat real | PStr string | PList "pyval list" | PNone

text \<open>
  A record of the weight file is the four-element list
  \<^verbatim>\<open>[vertexIndex, influenceName, influenceIndex, weight]\<close>.
\<close>

type_synonym wrec = "int \<times> string \<times> int \<times> real"

definition rec_vertex :: "wrec \<Rightarrow> int" where
  "rec_vertex r = fst r"

definition rec_name :: "wrec \<Rightarrow> string" where
  "rec_name r = fst (snd r)"

definition rec_infl :: "wrec \<Rightarrow> int" where
  "rec_infl r = fst (snd (snd r))"

definition rec_weight :: "wrec \<Rightarrow> real" where
  "rec_weight r = snd (snd (snd r))"

definition rec_val :: "wrec \<Rightarrow> pyval" where
  "rec_val r = PList [PInt (rec_vertex r), PStr (rec_name r), PInt (rec_infl r),
                      PFloat (rec_weight r)]"

text \<open>
  The operations of the importer on values; \<open>None\<close> stands for the exception Python
  raises (\<^verbatim>\<open>IndexError\<close> or \<^verbatim>\<open>TypeError\<close>). \<open>subscript v k\<close> is \<^verbatim>\<open>v[k]\<close>,
  \<open>plus_one v\<close> is \<^verbatim>\<open>v + 1\<close>, \<open>minus_one v\<close> is \<^verbatim>\<open>v - 1\<close>, \<open>py_eq v w\<close> is \<^verbatim>\<open>v == w\<close> (an
  integer equals the float of the same value), and \<open>range_len v w\<close> is the number of
  rounds of \<^verbatim>\<open>for x in range(v, w)\<close>.
\<close>

fun subscript :: "pyval \<Rightarrow> nat \<Rightarrow> pyval option" where
  "subscript (PList xs) k = (if k < length xs then Some (xs ! k) else None)"
| "subscript (PStr s) k = (if k < length s then Some (PStr [s ! k]) else None)"
| "subscript (PInt n) k = None"
| "subscript (PFloat x) k = None"
| "subscript PNone k = None"

fun plus_one :: "pyval \<Rightarrow> pyval option" where
  "plus_one (PInt n) = Some (PInt (n + 1))"
| "plus_one (PFloat x) = Some (PFloat (x + 1))"
| "plus_one v = None"

fun minus_one :: "pyval \<Rightarrow> pyval option" where
  "minus_one (PInt n) = Some (PInt (n - 1))"
| "minus_one (PFloat x) = Some (PFloat (x - 1))"
| "minus_one v = None"

fun numeric :: "pyval \<Rightarrow> pyval" where
  "numeric (PInt n) = PFloat (of_int n)"
| "numeric (PFloat x) = PFloat x"
| "numeric (PStr s) = PStr s"
| "numeric (PList xs) = PList (map numeric xs)"
| "numeric PNone = PNone"

definition py_eq :: "pyval \<Rightarrow> pyval \<Rightarrow> bool" where
  "py_eq v w = (numeric v = numeric w)"

fun range_len :: "pyval \<Rightarrow> pyval \<Rightarrow> nat option" where
  "range_len (PInt m) (PInt n) = Some (nat (n - m))"
| "range_len v w = None"

text \<open>
  The source prints with Python's \<^verbatim>\<open>str\<close> and \<^verbatim>\<open>format\<close> and parses record lines
  with Python's \<^verbatim>\<open>eval\<close>. These built-ins are parameters of the model: \<open>str_val\<close>
  prints a value, and \<open>eval\<close> gives the value a line evaluates to, or \<open>None\<close> when
  evaluating the line raises. \<open>str_int\<close>, \<open>str_float\<close> and \<open>str_list\<close> are \<^verbatim>\<open>str\<close> of an
  integer, of a float and of a record list.
\<close>

record py =
  str_val :: "pyval \<Rightarrow> string"
  eval :: "string \<Rightarrow> pyval option"

definition str_int :: "py \<Rightarrow> int \<Rightarrow> string" where
  "str_int p n = str_val p (PInt n)"

definition str_float :: "py \<Rightarrow> real \<Rightarrow> string" where
  "str_float p x = str_val p (PFloat x)"

definition str_list :: "py \<Rightarrow> wrec \<Rightarrow> string" where
  "str_list p r = str_val p (rec_val r)"

subsection \<open>Effects and return values\<close>

datatype effect =
    DisplayError string
  | DisplayInfo string
  | SetResult string
  | Select "string list"
  | ForceNormalize string
  | MakeDirs string
  | OpenFile string
  | WriteFile string string
  | NewSkinCluster string
  | Rename string string
  | SetAttrNw string int
  | PruneWeights string string
  | SetSize pyval
  | SetWeights int pyval pyval pyval string

text \<open>
  \<open>SetSize n\<close> is the command \<^verbatim>\<open>setAttr -s n ".wl"\<close>, and
  \<open>SetWeights setCount compIndex inflStart inflEnd weightString\<close> is the command
  \<^verbatim>\<open>setAttr -s setCount ".weightList[compIndex].weights[inflStart:inflEnd]" weightString\<close>
  (written without \<^verbatim>\<open>:inflEnd\<close> when \<^verbatim>\<open>inflEnd == inflStart\<close>); the values are those
  whose \<^verbatim>\<open>str\<close> the command text holds, and the weight string is the text itself.

  A function returns \<open>RInt n\<close> for \<^verbatim>\<open>return n\<close>, \<open>RUnit\<close> for \<^verbatim>\<open>return()\<close>,
  \<open>RNone\<close> when it runs to its end without a return, and \<open>Raised\<close> when a Python
  exception leaves it.
\<close>

datatype retval = RInt int | RUnit | RNone | Raised

subsection \<open>The exporter\<close>

text \<open>
  What \<^verbatim>\<open>writeWeights\<close> asks of the scene: the selection, node types, the influences
  and geometry of the selected skinCluster, its three attributes, and the weights.
  \<open>getWeights\<close> is the list of the arrays \<^verbatim>\<open>getWeights\<close> fills, one for each component
  the geometry iterator visits, in the iterator's order; the iterator's \<^verbatim>\<open>index()\<close> of
  the k-th component is k.
\<close>

record skin =
  selection :: "string list"
  nodeType :: "string \<Rightarrow> string"
  influence :: "string list"
  geometry :: "string list"
  normalizeWeights :: int
  maxInfluences :: int
  dropoff :: real
  getWeights :: "real list list"

record fsys =
  can_open :: "string \<Rightarrow> bool"
  path_exists :: "string \<Rightarrow> bool"
  can_makedirs :: "string \<Rightarrow> bool"

definition file_error :: "string \<Rightarrow> effect" where
  "file_error fileName = DisplayError (''A file error has occurred for file: '' @ fileName)"

text \<open>
  The inner loop of the default export: for one component, the record lines of the
  influences whose weight is positive. \<^verbatim>\<open>value[j]\<close> raises when the array is shorter than
  the influence list; \<open>rows_cover\<close> says that this does not happen.
\<close>

definition rows_cover :: "nat \<Rightarrow> real list list \<Rightarrow> bool" where
  "rows_cover n tbl = list_all (\<lambda>value. n \<le> length value) tbl"

definition vertex_records :: "string list \<Rightarrow> nat \<times> real list \<Rightarrow> wrec list" where
  "vertex_records infls iv =
     map (\<lambda>j. (int (fst iv), infls ! j, int j, snd iv ! j))
       (filter (\<lambda>j. snd iv ! j > 0) [0..<length infls])"

definition table_records :: "string list \<Rightarrow> real list list \<Rightarrow> wrec list" where
  "table_records infls tbl = concat (map (vertex_records infls) (enumerate 0 tbl))"

definition params_line :: "py \<Rightarrow> skin \<Rightarrow> string" where
  "params_line p sc =
     ''-nw '' @ str_int p (normalizeWeights sc) @ '' -mi '' @ str_int p (maxInfluences sc)
       @ '' -dr '' @ str_float p (dropoff sc)"

definition single_lines :: "py \<Rightarrow> skin \<Rightarrow> string \<Rightarrow> string list \<Rightarrow> string \<Rightarrow> string list" where
  "single_lines p sc skinClusterNode infls shape =
     [join_with '' '' (infls @ [shape]), skinClusterNode, params_line p sc]
       @ map (str_list p) (table_records infls (getWeights sc)) @ ['''']"

definition write_single ::
  "py \<Rightarrow> fsys \<Rightarrow> skin \<Rightarrow> string \<Rightarrow> string \<Rightarrow> string list \<Rightarrow> string \<Rightarrow> effect list \<times> retval"
where
  "write_single p fs sc fileName skinClusterNode infls shape =
     (if \<not> can_open fs fileName then ([file_error fileName], RInt (- 1))
      else if \<not> rows_cover (length infls) (getWeights sc)
        then ([OpenFile fileName, file_error fileName], RInt (- 1))
      else ([OpenFile fileName,
             WriteFile fileName (join_with [nl] (single_lines p sc skinClusterNode infls shape))],
            RInt 1))"

text \<open>The exclusive export: one file for each influence, a line for each component.\<close>

definition exclusive_lines :: "py \<Rightarrow> real list list \<Rightarrow> nat \<Rightarrow> string list" where
  "exclusive_lines p tbl j =
     map (\<lambda>iv. str_int p (int (fst iv)) @ '' '' @ str_float p (snd iv ! j)) (enumerate 0 tbl)
       @ ['''']"

fun write_files ::
  "py \<Rightarrow> fsys \<Rightarrow> string \<Rightarrow> string list \<Rightarrow> real list list \<Rightarrow> nat list \<Rightarrow> effect list \<times> retval"
where
  "write_files p fs dataPath infls tbl [] = ([], RInt 1)"
| "write_files p fs dataPath infls tbl (j # js) =
     (let fileName = dataPath @ ''/'' @ infls ! j @ ''.bsw'' in
      if \<not> can_open fs fileName then ([file_error fileName], RInt (- 1))
      else if \<not> rows_cover (Suc j) tbl
        then ([OpenFile fileName, file_error fileName], RInt (- 1))
      else (OpenFile fileName
              # WriteFile fileName (join_with [nl] (exclusive_lines p tbl j))
              # fst (write_files p fs dataPath infls tbl js),
            snd (write_files p fs dataPath infls tbl js)))"

definition write_exclusive ::
  "py \<Rightarrow> fsys \<Rightarrow> skin \<Rightarrow> string \<Rightarrow> string \<Rightarrow> string list \<Rightarrow> effect list \<times> retval"
where
  "write_exclusive p fs sc fileName skinClusterNode infls =
     (let dataPath = fileName @ ''/'' @ skinClusterNode in
      if \<not> path_exists fs dataPath \<and> \<not> can_makedirs fs dataPath
        then ([ForceNormalize skinClusterNode,
               DisplayError (''Unable to create export directory: '' @ dataPath)], RInt (- 1))
      else
        (ForceNormalize skinClusterNode
           # (if path_exists fs dataPath then [] else [MakeDirs dataPath])
           @ fst (write_files p fs dataPath infls (getWeights sc) [0..<length infls]),
         snd (write_files p fs dataPath infls (getWeights sc) [0..<length infls])))"

definition writeWeights :: "py \<Rightarrow> fsys \<Rightarrow> skin \<Rightarrow> string \<Rightarrow> int \<Rightarrow> effect list \<times> retval" where
  "writeWeights p fs sc fileName exclusive =
     (case selection sc of
        [] \<Rightarrow> ([DisplayError ''Select a skinCluster node to export.''], RInt (- 1))
      | skinClusterNode # _ \<Rightarrow>
          if nodeType sc skinClusterNode \<noteq> ''skinCluster''
            then ([DisplayError ''Selected node is not a skinCluster.''], RInt (- 1))
          else if length (influence sc) = 0
            then ([DisplayError (''No influence objects found for skinCluster ''
                     @ skinClusterNode @ ''.'')], RInt (- 1))
          else
            (case geometry sc of
               [] \<Rightarrow> ([], Raised)
             | shape # _ \<Rightarrow>
                 if length shape = 0
                   then ([DisplayError ''No connected shape nodes found.''], RInt (- 1))
                 else
                   (let r = (if exclusive = 0
                             then write_single p fs sc fileName skinClusterNode (influence sc) shape
                             else write_exclusive p fs sc fileName skinClusterNode (influence sc))
                    in (Select [shape] # fst r, snd r))))"

subsection \<open>The importer\<close>

text \<open>
  What \<^verbatim>\<open>readWeights\<close> asks of its surroundings: the text of the file (\<open>None\<close> when
  \<^verbatim>\<open>open\<close> raises), whether \<^verbatim>\<open>cmds.select\<close> of a list of names succeeds, the node
  types of the history of a shape, the application version, the name of the node that
  \<^verbatim>\<open>newSkinCluster\<close> creates, and the value of the \<^verbatim>\<open>.nw\<close> attribute.
\<close>

record dest =
  read_file :: "string \<Rightarrow> string option"
  select_ok :: "string list \<Rightarrow> bool"
  history_types :: "string \<Rightarrow> string list"
  app_version :: real
  new_cluster :: "string \<Rightarrow> string"
  nw_attr :: "string \<Rightarrow> int"

text \<open>The first line: the names to select, reversed on request, the shape staying last.\<close>

definition header_shape :: "string \<Rightarrow> string" where
  "header_shape objects = last (split_on sp objects)"

definition header_objects :: "string \<Rightarrow> int \<Rightarrow> string list" where
  "header_objects objects reverseOrder =
     (if reverseOrder = 1 then tl (rev (split_on sp objects)) @ [header_shape objects]
      else split_on sp objects)"

text \<open>The variables of the loop that writes ranges of influences.\<close>

record acc =
  weightString :: string
  inflStart :: pyval
  inflEnd :: pyval
  setCount :: int
  writeData :: int

definition acc0 :: acc where
  "acc0 = \<lparr>weightString = [], inflStart = PInt (- 1), inflEnd = PInt (- 1), setCount = 0,
           writeData = 0\<rparr>"

text \<open>
  One line's value enters the range: a new range starts, or the range is extended, after
  the \<^verbatim>\<open>"0 "\<close> for each of the influence indices \<^verbatim>\<open>range(inflEnd + 1, weights[2])\<close> that
  were dropped; then \<^verbatim>\<open>str(weights[3])\<close> and a blank are appended. The result is \<open>None\<close>
  when \<^verbatim>\<open>weights[2]\<close>, \<^verbatim>\<open>weights[2]-1\<close>, \<^verbatim>\<open>inflEnd + 1\<close>, the \<^verbatim>\<open>range\<close> or \<^verbatim>\<open>weights[3]\<close>
  raises.
\<close>

definition enter_range :: "acc \<Rightarrow> pyval \<Rightarrow> acc option" where
  "enter_range a w2 =
     (if py_eq (inflStart a) (PInt (- 1)) then Some (a\<lparr>inflEnd := w2, inflStart := w2\<rparr>)
      else
        (case minus_one w2 of
           None \<Rightarrow> None
         | Some before \<Rightarrow>
             if py_eq (inflEnd a) before then Some (a\<lparr>inflEnd := w2\<rparr>)
             else
               (case plus_one (inflEnd a) of
                  None \<Rightarrow> None
                | Some lo \<Rightarrow>
                    (case range_len lo w2 of
                       None \<Rightarrow> None
                     | Some n \<Rightarrow>
                         Some (a\<lparr>weightString := weightString a @ concat (replicate n ''0 ''),
                                 setCount := setCount a + int n,
                                 inflEnd := w2\<rparr>)))))"

definition absorb :: "py \<Rightarrow> acc \<Rightarrow> pyval \<Rightarrow> acc option" where
  "absorb p a weights =
     (case subscript weights 2 of
        None \<Rightarrow> None
      | Some w2 \<Rightarrow>
          (case enter_range a w2 of
             None \<Rightarrow> None
           | Some a' \<Rightarrow>
               (case subscript weights 3 of
                  None \<Rightarrow> None
                | Some w3 \<Rightarrow>
                    Some (a'\<lparr>weightString := weightString a' @ str_val p w3 @ '' '',
                             setCount := setCount a' + 1\<rparr>))))"

definition flush :: "acc \<Rightarrow> pyval \<Rightarrow> effect" where
  "flush a compIndex =
     SetWeights (setCount a) compIndex (inflStart a) (inflEnd a) (weightString a)"

text \<open>
  The loop \<^verbatim>\<open>for i in range(3, len(weightLines)-1)\<close>, over the list of its indices. The
  second component of the result is \<open>False\<close> when a round raised, at an \<^verbatim>\<open>eval\<close>, at
  \<^verbatim>\<open>weights[0]\<close>, while the value entered the range, or at \<^verbatim>\<open>weightsNext[0]\<close>; the
  effects are those that happened before. A round raises only before it executes its
  command.
\<close>

fun apply_loop :: "py \<Rightarrow> string list \<Rightarrow> nat list \<Rightarrow> acc \<Rightarrow> effect list \<times> bool" where
  "apply_loop p weightLines [] a = ([], True)"
| "apply_loop p weightLines (i # is) a =
     (case eval p (weightLines ! i) of
        None \<Rightarrow> ([], False)
      | Some weights \<Rightarrow>
          (case (if i < length weightLines - 2 then eval p (weightLines ! (i + 1))
                 else Some weights) of
             None \<Rightarrow> ([], False)
           | Some weightsNext \<Rightarrow>
               (case subscript weights 0 of
                  None \<Rightarrow> ([], False)
                | Some compIndex \<Rightarrow>
                    (case absorb p (if i < length weightLines - 2 then a
                                    else a\<lparr>writeData := 1\<rparr>) weights of
                       None \<Rightarrow> ([], False)
                     | Some a2 \<Rightarrow>
                         (case subscript weightsNext 0 of
                            None \<Rightarrow> ([], False)
                          | Some nextIndex \<Rightarrow>
                              (let a3 = (if \<not> py_eq compIndex nextIndex
                                         then a2\<lparr>writeData := 1\<rparr> else a2)
                               in if writeData a3 = 1
                                  then (flush a3 compIndex
                                          # fst (apply_loop p weightLines is acc0),
                                        snd (apply_loop p weightLines is acc0))
                                  else apply_loop p weightLines is a3))))))"

definition bind_command :: "dest \<Rightarrow> string \<Rightarrow> string" where
  "bind_command d params =
     ''-tsb '' @ (if app_version d < 2013 then ''-ih '' else ''-bm 0 '') @ params
       @ ''-omi true -rui false''"

definition already_bound :: "dest \<Rightarrow> string \<Rightarrow> bool" where
  "already_bound d shape = (''skinCluster'' \<in> set (history_types d shape))"

text \<open>
  The steps after the checks: the binding is created, renamed, set to no normalization
  and pruned; the line before the last is evaluated and its \<^verbatim>\<open>[0]\<close> taken; the new
  skinCluster is selected; the weight list is sized to \<^verbatim>\<open>maxIndex+1\<close>; the loop runs;
  the normalization is set back.
\<close>

definition apply_weights ::
  "py \<Rightarrow> dest \<Rightarrow> string list \<Rightarrow> string \<Rightarrow> string \<Rightarrow> effect list \<times> retval"
where
  "apply_weights p d weightLines shape skinClusterName =
     (let create = [NewSkinCluster (bind_command d (weightLines ! 2)),
                    Rename (new_cluster d (bind_command d (weightLines ! 2))) skinClusterName,
                    SetAttrNw skinClusterName 0,
                    PruneWeights skinClusterName shape]
      in case eval p (weightLines ! (length weightLines - 2)) of
           None \<Rightarrow> (create, Raised)
         | Some weights \<Rightarrow>
             (case subscript weights 0 of
                None \<Rightarrow> (create, Raised)
              | Some maxIndex \<Rightarrow>
                  (case plus_one maxIndex of
                     None \<Rightarrow> (create @ [Select [skinClusterName]], Raised)
                   | Some count \<Rightarrow>
                       (let r = apply_loop p weightLines [3..<length weightLines - 1] acc0;
                            sized = create @ [Select [skinClusterName], SetSize count]
                        in if snd r
                           then (sized @ fst r
                                   @ [SetAttrNw skinClusterName (nw_attr d skinClusterName)],
                                 RInt 1)
                           else (sized @ fst r, Raised)))))"

definition readWeights :: "py \<Rightarrow> dest \<Rightarrow> string \<Rightarrow> int \<Rightarrow> effect list \<times> retval" where
  "readWeights p d fileName reverseOrder =
     (case read_file d fileName of
        None \<Rightarrow> ([file_error fileName], RInt (- 1))
      | Some weightData \<Rightarrow>
          (let weightLines = split_on nl weightData;
               shape = header_shape (weightLines ! 0);
               objects = header_objects (weightLines ! 0) reverseOrder
           in if length weightLines < 2 then ([], Raised)
              else if \<not> select_ok d objects then ([], RUnit)
              else if already_bound d shape
                then ([Select objects,
                       DisplayError (shape @ '' is already connected to a skinCluster.'')],
                      RInt (- 1))
              else if length weightLines < 3 then ([Select objects], Raised)
              else
                (let r = apply_weights p d weightLines shape (weightLines ! 1)
                 in (Select objects # fst r, snd r))))"

subsection \<open>The command\<close>

text \<open>
  The flags after parsing: whether \<^verbatim>\<open>-h\<close> is set, and the argument of each of the other
  flags when it is set. The syntax declares the numeric flags \<^verbatim>\<open>kLong\<close>.
\<close>

record args =
  helpSet :: bool
  modeFlag :: "int option"
  orderFlag :: "int option"
  exclusiveFlag :: "int option"
  fileFlag :: "string option"

definition kPluginCmdName :: string where
  "kPluginCmdName = ''transferSkinCluster''"

definition helpText :: string where
  "helpText =
     [nl] @ '' Description: The command exports and imports the selected skinCluster to/from a file.''
     @ [nl]
     @ [nl] @ '' Flags: transferSkinCluster -h    -help          <n/a>       this message''
     @ [nl] @ ''                            -m    -mode          <int>       write (default=0) or read (1)''
     @ [nl] @ ''                            -ro   -reverseOrder  <int>       from file (default=0) or reversed (1)''
     @ [nl] @ ''                            -f    -file          <string>    the file name for the skinCluster weight data''
     @ [nl] @ ''                            -ex   -exclusive     <int>       stores the weight for each influence to a separate file''
     @ [nl]
     @ [nl] @ '' Usage:   Execute the command with the following arguments:''
     @ [nl] @ '' Execute: transferSkinCluster -m <mode> -f <file name>;''"

text \<open>
  \<^verbatim>\<open>doIt\<close> up to the point where it calls the exporter or the importer: what it decides
  to do.
\<close>

datatype branch =
    Help
  | Reject string
  | Export string int
  | Import string int

definition flag_default :: "int option \<Rightarrow> int" where
  "flag_default f = (case f of None \<Rightarrow> 0 | Some v \<Rightarrow> v)"

definition doIt_branch :: "args \<Rightarrow> branch" where
  "doIt_branch a =
     (if helpSet a then Help
      else
        (case fileFlag a of
           None \<Rightarrow> Reject (kPluginCmdName @ '' needs file name flag.'')
         | Some fileName \<Rightarrow>
             if fileName = [] then Reject (kPluginCmdName @ '' file name is not specified.'')
             else if flag_default (modeFlag a) < 0 \<or> flag_default (modeFlag a) > 1
               then Reject (kPluginCmdName
                      @ '' mode needs to be set to either 0 for 'write' or 1 for 'read'.'')
             else if flag_default (modeFlag a) = 0
               then Export fileName (flag_default (exclusiveFlag a))
             else Import fileName (flag_default (orderFlag a))))"

definition report :: "string \<Rightarrow> string \<Rightarrow> string \<Rightarrow> retval \<Rightarrow> effect list" where
  "report doneTime msgString fileName result =
     (if result = RInt 1
      then [DisplayInfo (''transferSkinCluster command took '' @ doneTime @ '' seconds''),
            DisplayInfo (''Weights '' @ msgString @ '': '' @ fileName)]
      else [])"

text \<open>
  The whole command; \<open>doneTime\<close> is the elapsed time as \<^verbatim>\<open>{:.2f}\<close> prints it. An
  exception that leaves the exporter or the importer leaves the command.
\<close>

definition doIt ::
  "py \<Rightarrow> fsys \<Rightarrow> skin \<Rightarrow> dest \<Rightarrow> string \<Rightarrow> args \<Rightarrow> effect list \<times> retval"
where
  "doIt p fs sc d doneTime a =
     (case doIt_branch a of
        Help \<Rightarrow> ([SetResult helpText], RUnit)
      | Reject msg \<Rightarrow> ([DisplayError msg], RUnit)
      | Export fileName exclusive \<Rightarrow>
          (let r = writeWeights p fs sc fileName exclusive
           in if snd r = Raised then r
              else (fst r @ report doneTime ''exported to '' fileName (snd r), RNone))
      | Import fileName reverseOrder \<Rightarrow>
          (let r = readWeights p d fileName reverseOrder
           in if snd r = Raised then r
              else (fst r @ report doneTime ''imported from '' fileName (snd r), RNone)))"

subsection \<open>What the importer is expected to replay\<close>

text \<open>
  The order of the records in a file: ascending by vertex, and by influence index inside a
  vertex.
\<close>

definition rec_before :: "wrec \<Rightarrow> wrec \<Rightarrow> bool" where
  "rec_before r s =
     (rec_vertex r < rec_vertex s \<or> (rec_vertex r = rec_vertex s \<and> rec_infl r < rec_infl s))"

definition rec_key :: "wrec \<Rightarrow> int \<times> int" where
  "rec_key r = (rec_vertex r, rec_infl r)"

text \<open>The record lines of a file are lines 3 to \<open>len - 2\<close>; the last line is never read.\<close>

definition record_lines :: "string list \<Rightarrow> string list" where
  "record_lines weightLines = drop 3 (butlast weightLines)"

text \<open>
  The step of the loop on a line that evaluates to a record. It does not raise when the
  bounds of the range are integers, as they are at the start and after records.
\<close>

definition absorb_rec :: "py \<Rightarrow> acc \<Rightarrow> wrec \<Rightarrow> acc" where
  "absorb_rec p a r = (case absorb p a (rec_val r) of None \<Rightarrow> a | Some a' \<Rightarrow> a')"

fun is_int :: "pyval \<Rightarrow> bool" where
  "is_int (PInt n) = True"
| "is_int v = False"

definition int_bounds :: "acc \<Rightarrow> bool" where
  "int_bounds a = (is_int (inflStart a) \<and> is_int (inflEnd a))"

text \<open>
  The loop seen from the list of the records its lines evaluate to: a record is absorbed,
  and the range is written when the next record has another vertex or there is no next
  record.
\<close>

fun replay :: "py \<Rightarrow> acc \<Rightarrow> wrec list \<Rightarrow> effect list" where
  "replay p a [] = []"
| "replay p a [r] = [flush (absorb_rec p a r) (PInt (rec_vertex r))]"
| "replay p a (r # s # rs) =
     (if rec_vertex r \<noteq> rec_vertex s
      then flush (absorb_rec p a r) (PInt (rec_vertex r)) # replay p acc0 (s # rs)
      else replay p (absorb_rec p a r) (s # rs))"

text \<open>The runs of a record list: its maximal blocks of adjacent records of one vertex.\<close>

fun runs :: "wrec list \<Rightarrow> wrec list list" where
  "runs [] = []"
| "runs [r] = [[r]]"
| "runs (r # s # rs) =
     (if rec_vertex r \<noteq> rec_vertex s then [r] # runs (s # rs)
      else (r # hd (runs (s # rs))) # tl (runs (s # rs)))"

definition run_flush :: "py \<Rightarrow> acc \<Rightarrow> wrec list \<Rightarrow> effect" where
  "run_flush p a run = flush (foldl (absorb_rec p) a run) (PInt (rec_vertex (last run)))"

text \<open>
  The range command of a run, as the specification describes it: it covers the influence
  indices from the first to the last record of the run, with the printed weight of the
  record at each index that has one, and \<^verbatim>\<open>0\<close> at the others, a blank after each.
\<close>

definition weight_text :: "py \<Rightarrow> wrec list \<Rightarrow> int \<Rightarrow> string" where
  "weight_text p run x =
     (case find (\<lambda>r. rec_infl r = x) run of
        None \<Rightarrow> ''0 ''
      | Some r \<Rightarrow> str_float p (rec_weight r) @ '' '')"

definition run_command :: "py \<Rightarrow> wrec list \<Rightarrow> effect" where
  "run_command p run =
     SetWeights (rec_infl (last run) - rec_infl (hd run) + 1) (PInt (rec_vertex (hd run)))
       (PInt (rec_infl (hd run))) (PInt (rec_infl (last run)))
       (concat (map (weight_text p run) [rec_infl (hd run)..rec_infl (last run)]))"

text \<open>The range commands among the effects.\<close>

fun is_range :: "effect \<Rightarrow> bool" where
  "is_range (SetWeights c v s e ws) = True"
| "is_range _ = False"

definition range_commands :: "effect list \<Rightarrow> effect list" where
  "range_commands es = filter is_range es"

text \<open>
  A line that makes its round of the loop raise whatever the round started from: it does
  not evaluate, or its value has no \<^verbatim>\<open>[0]\<close>, no \<^verbatim>\<open>[2]\<close> or no \<^verbatim>\<open>[3]\<close>. \<open>line_vertex\<close> is
  the \<^verbatim>\<open>[0]\<close> of the value of a line, if there is one. A line is \<open>readable\<close> when the
  loop reads it like a record, be it one or not: it evaluates to a value with a \<^verbatim>\<open>[0]\<close>,
  an integer \<^verbatim>\<open>[2]\<close> and a \<^verbatim>\<open>[3]\<close>.
\<close>

definition lacks_field :: "py \<Rightarrow> string \<Rightarrow> bool" where
  "lacks_field p l =
     (case eval p l of
        None \<Rightarrow> True
      | Some v \<Rightarrow> subscript v 0 = None \<or> subscript v 2 = None \<or> subscript v 3 = None)"

definition readable :: "py \<Rightarrow> string \<Rightarrow> bool" where
  "readable p l =
     (case eval p l of
        None \<Rightarrow> False
      | Some v \<Rightarrow>
          subscript v 0 \<noteq> None
          \<and> (case subscript v 2 of None \<Rightarrow> False | Some w2 \<Rightarrow> is_int w2)
          \<and> subscript v 3 \<noteq> None)"

definition line_vertex :: "py \<Rightarrow> string \<Rightarrow> pyval option" where
  "line_vertex p l = (case eval p l of None \<Rightarrow> None | Some v \<Rightarrow> subscript v 0)"

text \<open>
  The size that the import sets from a line, the line before the last: \<^verbatim>\<open>[0] + 1\<close> of its
  value, if neither the \<^verbatim>\<open>eval\<close>, nor \<^verbatim>\<open>[0]\<close>, nor \<^verbatim>\<open>+ 1\<close> raises.
\<close>

definition list_size :: "py \<Rightarrow> string \<Rightarrow> pyval option" where
  "list_size p l = (case line_vertex p l of None \<Rightarrow> None | Some maxIndex \<Rightarrow> plus_one maxIndex)"

text \<open>
  The effects that change the binding of the destination; selecting, messages and file
  operations do not.
\<close>

fun mutates :: "effect \<Rightarrow> bool" where
  "mutates (NewSkinCluster c) = True"
| "mutates (Rename a b) = True"
| "mutates (SetAttrNw n v) = True"
| "mutates (PruneWeights n s) = True"
| "mutates (SetSize n) = True"
| "mutates (SetWeights c v s e ws) = True"
| "mutates (ForceNormalize n) = True"
| "mutates _ = False"

fun is_error :: "effect \<Rightarrow> bool" where
  "is_error (DisplayError m) = True"
| "is_error _ = False"

subsection \<open>A concrete scene\<close>

text \<open>
  Python's printing and \<^verbatim>\<open>eval\<close> on the handful of numbers and lines of the examples
  below; any other line does not evaluate.
\<close>

definition demo_lines :: "(string \<times> pyval) list" where
  "demo_lines =
     [(''[0, 'J1', 0, 0.6]'', rec_val (0, ''J1'', 0, 3 / 5)),
      (''[0, 'J2', 1, 0.4]'', rec_val (0, ''J2'', 1, 2 / 5)),
      (''[1, 'J2', 1, 1.0]'', rec_val (1, ''J2'', 1, 1)),
      (''[5, 'A', 0, 0.2]'', rec_val (5, ''A'', 0, 1 / 5)),
      (''[5, 'B', 1, 0.3]'', rec_val (5, ''B'', 1, 3 / 10)),
      (''[5, 'D', 3, 0.5]'', rec_val (5, ''D'', 3, 1 / 2)),
      (''[1, 'J2', 1, 'x', 9]'', PList [PInt 1, PStr ''J2'', PInt 1, PStr ''x'', PInt 9]),
      (''[1]'', PList [PInt 1]),
      (''[7]'', PList [PInt 7])]"

definition demo_str_int :: "int \<Rightarrow> string" where
  "demo_str_int n =
     (if n = 0 then ''0'' else if n = 1 then ''1'' else if n = 4 then ''4'' else ''5'')"

definition demo_str_float :: "real \<Rightarrow> string" where
  "demo_str_float x =
     (if x = 0 then ''0.0'' else if x = 1 then ''1.0'' else if x = 4 then ''4.0''
      else if x = 3 / 5 then ''0.6'' else if x = 2 / 5 then ''0.4''
      else if x = 1 / 5 then ''0.2'' else if x = 3 / 10 then ''0.3'' else ''0.5'')"

definition demo_str_list :: "pyval \<Rightarrow> string" where
  "demo_str_list v =
     (case find (\<lambda>l. snd l = v) demo_lines of None \<Rightarrow> ''[]'' | Some l \<Rightarrow> fst l)"

fun demo_str :: "pyval \<Rightarrow> string" where
  "demo_str (PInt n) = demo_str_int n"
| "demo_str (PFloat x) = demo_str_float x"
| "demo_str (PStr s) = s"
| "demo_str (PList xs) = demo_str_list (PList xs)"
| "demo_str PNone = ''None''"

definition demo_py :: py where
  "demo_py = \<lparr>str_val = demo_str, eval = map_of demo_lines\<rparr>"

text \<open>
  The scene of the specification's example: influences J1 and J2 on Mesh, bound by skinA,
  vertex 0 weighted 0.6 and 0.4, vertex 1 weighted 0 and 1.
\<close>

definition demo_skin :: skin where
  "demo_skin = \<lparr>selection = [''skinA''],
                nodeType = (\<lambda>n. if n = ''skinA'' then ''skinCluster'' else ''transform''),
                influence = [''J1'', ''J2''], geometry = [''Mesh''],
                normalizeWeights = 1, maxInfluences = 4, dropoff = 4,
                getWeights = [[3 / 5, 2 / 5], [0, 1]]\<rparr>"

definition demo_fsys :: fsys where
  "demo_fsys = \<lparr>can_open = (\<lambda>f. True), path_exists = (\<lambda>f. False),
                can_makedirs = (\<lambda>f. True)\<rparr>"

definition demo_file :: string where
  "demo_file =
     join_with [nl]
       [''J1 J2 Mesh'', ''skinA'', ''-nw 1 -mi 4 -dr 4.0'',
        ''[0, 'J1', 0, 0.6]'', ''[0, 'J2', 1, 0.4]'', ''[1, 'J2', 1, 1.0]'', '''']"

text \<open>
  A destination scene with the joints A, B, C, D, J1, J2, the free shapes Mesh and shapeX,
  and the shape Bound that a skinCluster already deforms. The files it can read are
  given by name.
\<close>

definition merge_file :: string where
  "merge_file =
     join_with [nl]
       [''A B C D shapeX'', ''skinB'', ''-nw 1 -mi 4 -dr 4.0'',
        ''[5, 'A', 0, 0.2]'', ''[5, 'B', 1, 0.3]'', ''[5, 'D', 3, 0.5]'', '''']"

definition unordered_file :: string where
  "unordered_file =
     join_with [nl]
       [''J1 J2 Mesh'', ''skinA'', ''-nw 1 -mi 4 -dr 4.0'',
        ''[1, 'J2', 1, 1.0]'', ''[0, 'J2', 1, 0.4]'', ''[0, 'J1', 0, 0.6]'', '''']"

definition broken_file :: string where
  "broken_file =
     join_with [nl]
       [''J1 J2 Mesh'', ''skinA'', ''-nw 1 -mi 4 -dr 4.0'',
        ''[0, 'J1', 0, 0.6]'', ''[1, 'J2', 1, 1.0]'', ''[5, 'A', 0'', ''[5, 'B', 1, 0.3]'',
        '''']"

definition short_file :: string where
  "short_file =
     join_with [nl]
       [''J1 J2 Mesh'', ''skinA'', ''-nw 1 -mi 4 -dr 4.0'',
        ''[0, 'J1', 0, 0.6]'', ''[1]'', ''[5, 'B', 1, 0.3]'', '''']"

definition sized_file :: string where
  "sized_file =
     join_with [nl]
       [''J1 J2 Mesh'', ''skinA'', ''-nw 1 -mi 4 -dr 4.0'',
        ''[0, 'J1', 0, 0.6]'', ''[1, 'J2', 1, 1.0]'', ''[7]'', '''']"

definition accepted_file :: string where
  "accepted_file =
     join_with [nl]
       [''J1 J2 Mesh'', ''skinA'', ''-nw 1 -mi 4 -dr 4.0'',
        ''[0, 'J1', 0, 0.6]'', ''[1, 'J2', 1, 'x', 9]'', '''']"

definition bound_file :: string where
  "bound_file =
     join_with [nl]
       [''J1 J2 Bound'', ''skinA'', ''-nw 1 -mi 4 -dr 4.0'', ''[0, 'J1', 0, 0.6]'', '''']"

definition missing_file :: string where
  "missing_file =
     join_with [nl]
       [''J1 J9 Mesh'', ''skinA'', ''-nw 1 -mi 4 -dr 4.0'', ''[0, 'J1', 0, 0.6]'', '''']"

definition empty_file :: string where
  "empty_file = join_with [nl] [''J1 J2 Mesh'', ''skinA'', ''-nw 1 -mi 4 -dr 4.0'', '''']"

definition demo_dest :: dest where
  "demo_dest =
     \<lparr>read_file = map_of [(''skin.weights'', demo_file), (''merge.weights'', merge_file),
                           (''unordered.weights'', unordered_file),
                           (''broken.weights'', broken_file), (''short.weights'', short_file),
                           (''sized.weights'', sized_file),
                           (''accepted.weights'', accepted_file),
                           (''bound.weights'', bound_file),
                           (''missing.weights'', missing_file), (''empty.weights'', empty_file)],
      select_ok = list_all (\<lambda>n. n \<in> set [''A'', ''B'', ''C'', ''D'', ''J1'', ''J2'', ''Mesh'',
                                            ''shapeX'', ''Bound'']),
      history_types = (\<lambda>s. if s = ''Bound'' then [''mesh'', ''skinCluster'', ''mesh'']
                            else [''mesh'']),
      app_version = 2020,
      new_cluster = (\<lambda>c. ''skinCluster1''),
      nw_attr = (\<lambda>n. 1)\<rparr>"

text \<open>Three invocations of the command.\<close>

definition help_args :: args where
  "help_args = \<lparr>helpSet = True, modeFlag = None, orderFlag = None, exclusiveFlag = None,
                fileFlag = None\<rparr>"

definition bad_mode_args :: args where
  "bad_mode_args = \<lparr>helpSet = False, modeFlag = Some 2, orderFlag = None,
                    exclusiveFlag = None, fileFlag = Some ''skin.weights''\<rparr>"

definition missing_args :: args where
  "missing_args = \<lparr>helpSet = False, modeFlag = Some 1, orderFlag = None,
                   exclusiveFlag = None, fileFlag = Some ''missing.weights''\<rparr>"

text \<open>
  The effects of an import that passed its checks, up to the pruning of the new
  skinCluster.
\<close>

definition binding_effects :: "dest \<Rightarrow> string list \<Rightarrow> int \<Rightarrow> effect list" where
  "binding_effects d weightLines reverseOrder =
     [Select (header_objects (weightLines ! 0) reverseOrder),
      NewSkinCluster (bind_command d (weightLines ! 2)),
      Rename (new_cluster d (bind_command d (weightLines ! 2))) (weightLines ! 1),
      SetAttrNw (weightLines ! 1) 0,
      PruneWeights (weightLines ! 1) (header_shape (weightLines ! 0))]"

text \<open>The records grouped by vertex: for each vertex that occurs, all its records.\<close>

definition vertex_runs :: "wrec list \<Rightarrow> wrec list list" where
  "vertex_runs recs =
     map (\<lambda>v. filter (\<lambda>r. rec_vertex r = v) recs) (remdups (map rec_vertex recs))"

text \<open>The text that a list of effects wrote to a file, if it wrote to it.\<close>

fun written_file :: "string \<Rightarrow> effect list \<Rightarrow> string option" where
  "written_file f [] = None"
| "written_file f (WriteFile g c # es) = (if f = g then Some c else written_file f es)"
| "written_file f (e # es) = written_file f es"

text \<open>The scene of the example without any vertex.\<close>

definition no_vertex_skin :: skin where
  "no_vertex_skin = demo_skin\<lparr>getWeights := []\<rparr>"

section \<open>Properties\<close>

subsection \<open>Splitting and joining\<close>

lemma split_on_not_Nil: "split_on c s \<noteq> []"
  by (induction s) auto

lemma split_on_free: "c \<notin> set l \<Longrightarrow> split_on c l = [l]"
  by (induction l) auto

lemma split_on_append: "c \<notin> set l \<Longrightarrow> split_on c (l @ c # rest) = l # split_on c rest"
  by (induction l) auto

lemma split_join:
  "ls \<noteq> [] \<Longrightarrow> \<forall>l\<in>set ls. c \<notin> set l \<Longrightarrow> split_on c (join_with [c] ls) = ls"
  by (induction "[c]" ls rule: join_with.induct) (auto simp: split_on_free split_on_append)

subsection \<open>The lines of the example files\<close>

lemma split_demo_file:
  "split_on nl demo_file =
     [''J1 J2 Mesh'', ''skinA'', ''-nw 1 -mi 4 -dr 4.0'',
      ''[0, 'J1', 0, 0.6]'', ''[0, 'J2', 1, 0.4]'', ''[1, 'J2', 1, 1.0]'', '''']"
  unfolding demo_file_def by (rule split_join) (simp_all add: nl_def)

lemma split_merge_file:
  "split_on nl merge_file =
     [''A B C D shapeX'', ''skinB'', ''-nw 1 -mi 4 -dr 4.0'',
      ''[5, 'A', 0, 0.2]'', ''[5, 'B', 1, 0.3]'', ''[5, 'D', 3, 0.5]'', '''']"
  unfolding merge_file_def by (rule split_join) (simp_all add: nl_def)

lemma split_unordered_file:
  "split_on nl unordered_file =
     [''J1 J2 Mesh'', ''skinA'', ''-nw 1 -mi 4 -dr 4.0'',
      ''[1, 'J2', 1, 1.0]'', ''[0, 'J2', 1, 0.4]'', ''[0, 'J1', 0, 0.6]'', '''']"
  unfolding unordered_file_def by (rule split_join) (simp_all add: nl_def)

lemma split_broken_file:
  "split_on nl broken_file =
     [''J1 J2 Mesh'', ''skinA'', ''-nw 1 -mi 4 -dr 4.0'',
      ''[0, 'J1', 0, 0.6]'', ''[1, 'J2', 1, 1.0]'', ''[5, 'A', 0'', ''[5, 'B', 1, 0.3]'',
      '''']"
  unfolding broken_file_def by (rule split_join) (simp_all add: nl_def)

lemma split_bound_file:
  "split_on nl bound_file =
     [''J1 J2 Bound'', ''skinA'', ''-nw 1 -mi 4 -dr 4.0'', ''[0, 'J1', 0, 0.6]'', '''']"
  unfolding bound_file_def by (rule split_join) (simp_all add: nl_def)

lemma split_missing_file:
  "split_on nl missing_file =
     [''J1 J9 Mesh'', ''skinA'', ''-nw 1 -mi 4 -dr 4.0'', ''[0, 'J1', 0, 0.6]'', '''']"
  unfolding missing_file_def by (rule split_join) (simp_all add: nl_def)

lemma split_empty_file:
  "split_on nl empty_file = [''J1 J2 Mesh'', ''skinA'', ''-nw 1 -mi 4 -dr 4.0'', '''']"
  unfolding empty_file_def by (rule split_join) (simp_all add: nl_def)

lemma read_demo_dest:
  "read_file demo_dest ''skin.weights'' = Some demo_file"
  "read_file demo_dest ''merge.weights'' = Some merge_file"
  "read_file demo_dest ''unordered.weights'' = Some unordered_file"
  "read_file demo_dest ''broken.weights'' = Some broken_file"
  "read_file demo_dest ''bound.weights'' = Some bound_file"
  "read_file demo_dest ''missing.weights'' = Some missing_file"
  "read_file demo_dest ''empty.weights'' = Some empty_file"
  by (simp_all add: demo_dest_def)

lemma demo_dest_fields:
  "select_ok demo_dest =
     list_all (\<lambda>n. n \<in> set [''A'', ''B'', ''C'', ''D'', ''J1'', ''J2'', ''Mesh'', ''shapeX'',
                              ''Bound''])"
  "history_types demo_dest =
     (\<lambda>s. if s = ''Bound'' then [''mesh'', ''skinCluster'', ''mesh''] else [''mesh''])"
  "app_version demo_dest = 2020"
  "new_cluster demo_dest = (\<lambda>c. ''skinCluster1'')"
  "nw_attr demo_dest = (\<lambda>n. 1)"
  by (simp_all add: demo_dest_def)

lemma eval_demo_py: "eval demo_py = map_of demo_lines"
  by (simp add: demo_py_def)

subsection \<open>The header line\<close>

text \<open>
  C3. With \<open>reverseOrder = 1\<close>, a first line whose tokens are the influence names followed by
  the shape name gives the influence names in reversed order, followed by the same shape
  name.
\<close>

theorem reverse_order_keeps_shape_last:
  assumes "split_on sp objects = infls @ [shape]"
  shows "header_objects objects 1 = rev infls @ [shape] \<and> header_shape objects = shape"
  using assms by (simp add: header_objects_def header_shape_def)

theorem reverse_order_keeps_shape_last_witness:
  "split_on sp ''A B C shapeX'' = [''A'', ''B'', ''C''] @ [''shapeX'']
   \<and> header_objects ''A B C shapeX'' 1 = [''C'', ''B'', ''A'', ''shapeX'']
   \<and> header_shape ''A B C shapeX'' = ''shapeX''"
proof -
  have h: "split_on sp ''A B C shapeX'' = [''A'', ''B'', ''C''] @ [''shapeX'']"
    by (simp add: sp_def)
  show ?thesis using h reverse_order_keeps_shape_last [OF h] by simp
qed

subsection \<open>The checks before the binding is created\<close>

lemma readWeights_no_mutation_when_bound:
  assumes "read_file d fileName = Some weightData"
    and "already_bound d (header_shape (split_on nl weightData ! 0))"
  shows "list_all (\<lambda>e. \<not> mutates e) (fst (readWeights p d fileName ro))"
    and "snd (readWeights p d fileName ro) \<noteq> RInt 1"
  using assms by (simp_all add: readWeights_def Let_def)

text \<open>
  C6. When the shape named in the file is already deformed by a skinCluster, the import
  does not succeed and none of its effects changes a binding: no skinCluster is created,
  renamed, pruned or resized, no normalization is set and no weights are set. When the file
  has its first two lines and the selection of the names succeeds, so that the check is
  reached, the import selects the names, displays the already-connected error and
  returns -1.
\<close>

theorem already_bound_aborts:
  assumes "read_file d fileName = Some weightData"
    and "already_bound d (header_shape (split_on nl weightData ! 0))"
  shows "snd (readWeights p d fileName ro) \<noteq> RInt 1
    \<and> list_all (\<lambda>e. \<not> mutates e) (fst (readWeights p d fileName ro))
    \<and> (2 \<le> length (split_on nl weightData)
         \<and> select_ok d (header_objects (split_on nl weightData ! 0) ro)
       \<longrightarrow> readWeights p d fileName ro =
             ([Select (header_objects (split_on nl weightData ! 0) ro),
               DisplayError (header_shape (split_on nl weightData ! 0)
                  @ '' is already connected to a skinCluster.'')],
              RInt (- 1)))"
  using assms readWeights_no_mutation_when_bound [OF assms]
  by (simp add: readWeights_def Let_def)

theorem already_bound_aborts_witness:
  "read_file demo_dest ''bound.weights'' = Some bound_file
   \<and> already_bound demo_dest (header_shape (split_on nl bound_file ! 0))
   \<and> 2 \<le> length (split_on nl bound_file)
   \<and> select_ok demo_dest (header_objects (split_on nl bound_file ! 0) 0)
   \<and> readWeights demo_py demo_dest ''bound.weights'' 0 =
       ([Select [''J1'', ''J2'', ''Bound''],
         DisplayError ''Bound is already connected to a skinCluster.''], RInt (- 1))"
proof -
  have r: "read_file demo_dest ''bound.weights'' = Some bound_file"
    by (simp add: read_demo_dest)
  have b: "already_bound demo_dest (header_shape (split_on nl bound_file ! 0))"
    by (simp add: split_bound_file header_shape_def sp_def already_bound_def demo_dest_fields)
  have s: "select_ok demo_dest (header_objects (split_on nl bound_file ! 0) 0)"
    by (simp add: split_bound_file header_objects_def sp_def demo_dest_fields)
  have l: "2 \<le> length (split_on nl bound_file)"
    by (simp add: split_bound_file)
  have o: "header_objects (split_on nl bound_file ! 0) 0 = [''J1'', ''J2'', ''Bound'']"
    by (simp add: split_bound_file header_objects_def sp_def)
  have h: "header_shape (split_on nl bound_file ! 0) = ''Bound''"
    by (simp add: split_bound_file header_shape_def sp_def)
  from already_bound_aborts [OF r b, of demo_py 0] l s
  have "readWeights demo_py demo_dest ''bound.weights'' 0 =
       ([Select (header_objects (split_on nl bound_file ! 0) 0),
         DisplayError (header_shape (split_on nl bound_file ! 0)
            @ '' is already connected to a skinCluster.'')], RInt (- 1))"
    by blast
  then show ?thesis using r b l s by (simp add: o h)
qed

text \<open>
  C9. A file that names an influence the scene does not have: the selection of the names
  fails, and the import returns the empty tuple with no effect at all, so no error is
  displayed; the command then ends without a message.
\<close>

theorem missing_name_is_silent:
  "\<not> select_ok demo_dest (header_objects (split_on nl missing_file ! 0) 0)
   \<and> readWeights demo_py demo_dest ''missing.weights'' 0 = ([], RUnit)
   \<and> doIt demo_py demo_fsys demo_skin demo_dest ''0.00'' missing_args = ([], RNone)"
proof -
  have s: "\<not> select_ok demo_dest (header_objects (split_on nl missing_file ! 0) 0)"
    by (simp add: split_missing_file header_objects_def sp_def demo_dest_fields)
  have r: "readWeights demo_py demo_dest ''missing.weights'' 0 = ([], RUnit)"
    using s by (simp add: readWeights_def read_demo_dest Let_def split_missing_file)
  have b: "doIt_branch missing_args = Import ''missing.weights'' 0"
    by (simp add: doIt_branch_def flag_default_def missing_args_def)
  show ?thesis using s r by (simp add: doIt_def b report_def)
qed

subsection \<open>The command's checks\<close>

text \<open>
  With the help flag set, whatever the other flags are, the command sets the help text as
  its result, displays no error and calls neither the exporter nor the importer.
\<close>

lemma help_flag_returns_help_text:
  assumes "helpSet a"
  shows "doIt_branch a = Help" and "doIt p fs sc d doneTime a = ([SetResult helpText], RUnit)"
  using assms by (simp_all add: doIt_def doIt_branch_def)

text \<open>
  C10, as the code has it. When the help flag is not set and the file flag is absent, or the
  file name is empty, or the mode is below 0 or above 1, the command displays an error and
  returns; it calls neither the exporter nor the importer.
\<close>

theorem rejected_invocation_calls_nothing:
  assumes "\<not> helpSet a"
    and "fileFlag a = None \<or> fileFlag a = Some [] \<or> flag_default (modeFlag a) < 0
         \<or> flag_default (modeFlag a) > 1"
  shows "\<exists>msg. doIt_branch a = Reject msg
           \<and> doIt p fs sc d doneTime a = ([DisplayError msg], RUnit)"
  using assms by (auto simp: doIt_def doIt_branch_def split: option.splits)

theorem rejected_invocation_calls_nothing_witness:
  "\<not> helpSet bad_mode_args \<and> flag_default (modeFlag bad_mode_args) > 1
   \<and> doIt_branch bad_mode_args =
        Reject ''transferSkinCluster mode needs to be set to either 0 for 'write' or 1 for 'read'.''
   \<and> doIt demo_py demo_fsys demo_skin demo_dest ''0.00'' bad_mode_args =
        ([DisplayError
            ''transferSkinCluster mode needs to be set to either 0 for 'write' or 1 for 'read'.''],
         RUnit)"
  using rejected_invocation_calls_nothing
    [of bad_mode_args demo_py demo_fsys demo_skin demo_dest "''0.00''"]
  by (auto simp: bad_mode_args_def flag_default_def doIt_branch_def kPluginCmdName_def)

text \<open>
  With the help flag set and no file flag, the command sets the help text as its result and
  displays no error.
\<close>

theorem help_without_file_counterexample:
  "fileFlag help_args = None
   \<and> doIt demo_py demo_fsys demo_skin demo_dest ''0.00'' help_args
       = ([SetResult helpText], RUnit)"
  by (simp add: doIt_def doIt_branch_def help_args_def)

subsection \<open>The record lines of the export\<close>

lemma rec_fields [simp]:
  "rec_vertex (v, n, j, w) = v" "rec_name (v, n, j, w) = n"
  "rec_infl (v, n, j, w) = j" "rec_weight (v, n, j, w) = w"
  by (simp_all add: rec_vertex_def rec_name_def rec_infl_def rec_weight_def)

lemma sorted_vertex_records: "sorted_wrt rec_before (vertex_records infls iv)"
proof -
  have "sorted_wrt (<) (filter (\<lambda>j. snd iv ! j > 0) [0..<length infls])"
    by (rule sorted_wrt_filter) simp
  then show ?thesis
    unfolding vertex_records_def sorted_wrt_map
    by (rule sorted_wrt_mono_rel [rotated]) (simp add: rec_before_def)
qed

lemma vertex_of_vertex_records:
  "r \<in> set (vertex_records infls iv) \<Longrightarrow> rec_vertex r = int (fst iv)"
  by (auto simp: vertex_records_def)

lemma vertex_of_enumerate_records:
  "r \<in> set (concat (map (vertex_records infls) (enumerate n tbl))) \<Longrightarrow> int n \<le> rec_vertex r"
  by (induction tbl arbitrary: n) (fastforce dest: vertex_of_vertex_records)+

lemma sorted_enumerate_records:
  "sorted_wrt rec_before (concat (map (vertex_records infls) (enumerate n tbl)))"
proof (induction tbl arbitrary: n)
  case Nil
  then show ?case by simp
next
  case (Cons row tbl)
  have "rec_before r s"
    if "r \<in> set (vertex_records infls (n, row))"
      and "s \<in> set (concat (map (vertex_records infls) (enumerate (Suc n) tbl)))" for r s
    using vertex_of_vertex_records [OF that(1)] vertex_of_enumerate_records [OF that(2)]
    by (simp add: rec_before_def)
  with Cons show ?case
    by (simp add: sorted_wrt_append sorted_vertex_records)
qed

lemma sorted_table_records: "sorted_wrt rec_before (table_records infls tbl)"
  by (simp add: table_records_def sorted_enumerate_records)

lemma set_table_records:
  "set (table_records infls tbl) =
     {(int v, infls ! j, int j, tbl ! v ! j) | v j.
        v < length tbl \<and> j < length infls \<and> tbl ! v ! j > 0}"
  apply (auto simp: table_records_def vertex_records_def in_set_enumerate_eq)
  subgoal for v j
    by (rule bexI [of _ "(v, tbl ! v)"]) (auto simp: in_set_enumerate_eq)
  done

lemma rec_before_key: "rec_before r s \<Longrightarrow> rec_key r \<noteq> rec_key s"
  by (auto simp: rec_before_def rec_key_def)

lemma distinct_keys_sorted: "sorted_wrt rec_before rs \<Longrightarrow> distinct (map rec_key rs)"
  by (induction rs) (auto dest: rec_before_key)

subsection \<open>The default export\<close>

lemma writeWeights_single:
  assumes "selection sc = skinClusterNode # others"
    and "nodeType sc skinClusterNode = ''skinCluster''"
    and "influence sc \<noteq> []"
    and "geometry sc = shape # shapes"
    and "shape \<noteq> []"
    and "can_open fs fileName"
    and "rows_cover (length (influence sc)) (getWeights sc)"
  shows "writeWeights p fs sc fileName 0 =
     ([Select [shape], OpenFile fileName,
       WriteFile fileName
         (join_with [nl]
            ([join_with '' '' (influence sc @ [shape]), skinClusterNode, params_line p sc]
               @ map (str_list p) (table_records (influence sc) (getWeights sc)) @ ['''']))],
      RInt 1)"
  using assms by (simp add: writeWeights_def write_single_def single_lines_def)

text \<open>
  C4. When the export reaches the file (a skinCluster is selected, it has influences and a
  shape, the file opens, and every weight array covers the influences), the file holds the
  three header lines, one line for each record of \<open>table_records\<close>, and the empty last
  line. The records are exactly the entries of the table whose weight is positive, each
  with the name of its influence; no two of them have the same vertex and influence index;
  and they are in ascending order of the vertex, and of the influence index inside a vertex.
\<close>

theorem export_emits_positive_pairs_once:
  assumes "selection sc = skinClusterNode # others"
    and "nodeType sc skinClusterNode = ''skinCluster''"
    and "influence sc \<noteq> []"
    and "geometry sc = shape # shapes"
    and "shape \<noteq> []"
    and "can_open fs fileName"
    and "rows_cover (length (influence sc)) (getWeights sc)"
  shows "writeWeights p fs sc fileName 0 =
     ([Select [shape], OpenFile fileName,
       WriteFile fileName
         (join_with [nl]
            ([join_with '' '' (influence sc @ [shape]), skinClusterNode, params_line p sc]
               @ map (str_list p) (table_records (influence sc) (getWeights sc)) @ ['''']))],
      RInt 1)
    \<and> set (table_records (influence sc) (getWeights sc)) =
        {(int v, influence sc ! j, int j, getWeights sc ! v ! j) | v j.
           v < length (getWeights sc) \<and> j < length (influence sc) \<and> getWeights sc ! v ! j > 0}
    \<and> distinct (map rec_key (table_records (influence sc) (getWeights sc)))
    \<and> sorted_wrt rec_before (table_records (influence sc) (getWeights sc))"
  using writeWeights_single [OF assms]
  by (simp add: set_table_records sorted_table_records distinct_keys_sorted)

lemma demo_skin_fields:
  "selection demo_skin = [''skinA'']" "nodeType demo_skin ''skinA'' = ''skinCluster''"
  "influence demo_skin = [''J1'', ''J2'']" "geometry demo_skin = [''Mesh'']"
  "normalizeWeights demo_skin = 1" "maxInfluences demo_skin = 4" "dropoff demo_skin = 4"
  "getWeights demo_skin = [[3 / 5, 2 / 5], [0, 1]]"
  by (simp_all add: demo_skin_def)

lemma demo_table_records:
  "table_records (influence demo_skin) (getWeights demo_skin) =
     [(0, ''J1'', 0, 3 / 5), (0, ''J2'', 1, 2 / 5), (1, ''J2'', 1, 1)]"
  by (simp add: demo_skin_fields table_records_def vertex_records_def enumerate_eq_zip
      upt_rec [of 0] upt_rec [of 1])

lemma rec_val_tuple:
  "rec_val (v, n, j, w) = PList [PInt v, PStr n, PInt j, PFloat w]"
  by (simp add: rec_val_def rec_vertex_def rec_name_def rec_infl_def rec_weight_def)

lemma demo_py_fields:
  "str_val demo_py = demo_str" "eval demo_py = map_of demo_lines"
  "str_int demo_py = demo_str_int" "str_float demo_py = demo_str_float"
  "str_list demo_py r = demo_str_list (rec_val r)"
  by (simp_all add: demo_py_def str_int_def str_float_def str_list_def fun_eq_iff rec_val_def)

lemma demo_str_list_lines:
  "map (str_list demo_py) [(0, ''J1'', 0, 3 / 5), (0, ''J2'', 1, 2 / 5), (1, ''J2'', 1, 1)] =
     [''[0, 'J1', 0, 0.6]'', ''[0, 'J2', 1, 0.4]'', ''[1, 'J2', 1, 1.0]'']"
  by (simp add: demo_py_fields demo_str_list_def demo_lines_def rec_val_tuple)

lemma demo_params_line: "params_line demo_py demo_skin = ''-nw 1 -mi 4 -dr 4.0''"
  by (simp add: params_line_def demo_py_fields demo_skin_fields demo_str_int_def
      demo_str_float_def)

lemma demo_single_file:
  "join_with [nl]
     ([join_with '' '' (influence demo_skin @ [''Mesh'']), ''skinA'',
       params_line demo_py demo_skin]
        @ map (str_list demo_py) (table_records (influence demo_skin) (getWeights demo_skin))
        @ ['''']) = demo_file"
  unfolding demo_table_records demo_str_list_lines demo_params_line
  by (simp add: demo_skin_fields demo_file_def)

theorem export_emits_positive_pairs_once_witness:
  "selection demo_skin = ''skinA'' # [] \<and> nodeType demo_skin ''skinA'' = ''skinCluster''
   \<and> influence demo_skin \<noteq> [] \<and> geometry demo_skin = ''Mesh'' # [] \<and> ''Mesh'' \<noteq> []
   \<and> can_open demo_fsys ''skin.weights''
   \<and> rows_cover (length (influence demo_skin)) (getWeights demo_skin)
   \<and> writeWeights demo_py demo_fsys demo_skin ''skin.weights'' 0 =
       ([Select [''Mesh''], OpenFile ''skin.weights'', WriteFile ''skin.weights'' demo_file],
        RInt 1)
   \<and> table_records (influence demo_skin) (getWeights demo_skin) =
        [(0, ''J1'', 0, 3 / 5), (0, ''J2'', 1, 2 / 5), (1, ''J2'', 1, 1)]
   \<and> distinct (map rec_key (table_records (influence demo_skin) (getWeights demo_skin)))
   \<and> sorted_wrt rec_before (table_records (influence demo_skin) (getWeights demo_skin))"
proof -
  have a: "selection demo_skin = ''skinA'' # []" "nodeType demo_skin ''skinA'' = ''skinCluster''"
    "influence demo_skin \<noteq> []" "geometry demo_skin = ''Mesh'' # []" "''Mesh'' \<noteq> []"
    "can_open demo_fsys ''skin.weights''"
    "rows_cover (length (influence demo_skin)) (getWeights demo_skin)"
    by (simp_all add: demo_skin_fields demo_fsys_def rows_cover_def)
  from export_emits_positive_pairs_once [OF a, of demo_py]
  have "writeWeights demo_py demo_fsys demo_skin ''skin.weights'' 0 =
       ([Select [''Mesh''], OpenFile ''skin.weights'', WriteFile ''skin.weights'' demo_file],
        RInt 1)
    \<and> distinct (map rec_key (table_records (influence demo_skin) (getWeights demo_skin)))
    \<and> sorted_wrt rec_before (table_records (influence demo_skin) (getWeights demo_skin))"
    unfolding demo_single_file by blast
  with a demo_table_records show ?thesis by blast
qed

subsection \<open>The exclusive export\<close>

lemma rows_cover_mono: "rows_cover n tbl \<Longrightarrow> m \<le> n \<Longrightarrow> rows_cover m tbl"
  by (induction tbl) (auto simp: rows_cover_def)

lemma write_files_all:
  assumes "\<forall>j\<in>set js. j < n \<and> can_open fs (dataPath @ ''/'' @ infls ! j @ ''.bsw'')"
    and "rows_cover n tbl"
  shows "write_files p fs dataPath infls tbl js =
     (concat (map (\<lambda>j. [OpenFile (dataPath @ ''/'' @ infls ! j @ ''.bsw''),
                          WriteFile (dataPath @ ''/'' @ infls ! j @ ''.bsw'')
                            (join_with [nl] (exclusive_lines p tbl j))]) js),
      RInt 1)"
  using assms
proof (induction js)
  case Nil
  then show ?case by simp
next
  case (Cons j js)
  then have "rows_cover (Suc j) tbl"
    by (auto intro: rows_cover_mono)
  with Cons show ?case by (simp add: Let_def)
qed

lemma exclusive_lines_all:
  "exclusive_lines p tbl j =
     map (\<lambda>v. str_int p (int v) @ '' '' @ str_float p (tbl ! v ! j)) [0..<length tbl] @ ['''']"
  unfolding exclusive_lines_def enumerate_eq_zip
  by (rule arg_cong [where f = "\<lambda>xs. xs @ _"], rule nth_equalityI) simp_all

lemma write_exclusive_all:
  assumes "path_exists fs (fileName @ ''/'' @ skinClusterNode)
         \<or> can_makedirs fs (fileName @ ''/'' @ skinClusterNode)"
    and "\<forall>j<length infls.
           can_open fs ((fileName @ ''/'' @ skinClusterNode) @ ''/'' @ infls ! j @ ''.bsw'')"
    and "rows_cover (length infls) (getWeights sc)"
  shows "write_exclusive p fs sc fileName skinClusterNode infls =
     (ForceNormalize skinClusterNode
        # (if path_exists fs (fileName @ ''/'' @ skinClusterNode) then []
           else [MakeDirs (fileName @ ''/'' @ skinClusterNode)])
        @ concat (map (\<lambda>j.
            [OpenFile ((fileName @ ''/'' @ skinClusterNode) @ ''/'' @ infls ! j @ ''.bsw''),
             WriteFile ((fileName @ ''/'' @ skinClusterNode) @ ''/'' @ infls ! j @ ''.bsw'')
               (join_with [nl] (exclusive_lines p (getWeights sc) j))])
            [0..<length infls]),
      RInt 1)"
proof -
  have "\<forall>j\<in>set [0..<length infls]. j < length infls
      \<and> can_open fs ((fileName @ ''/'' @ skinClusterNode) @ ''/'' @ infls ! j @ ''.bsw'')"
    using assms(2) by simp
  from write_files_all [OF this assms(3), of p]
  show ?thesis using assms(1)
    unfolding write_exclusive_def Let_def by auto
qed

lemma writeWeights_exclusive:
  assumes "selection sc = skinClusterNode # others"
    and "nodeType sc skinClusterNode = ''skinCluster''"
    and "influence sc \<noteq> []"
    and "geometry sc = shape # shapes"
    and "shape \<noteq> []"
    and "exclusive \<noteq> 0"
    and "path_exists fs (fileName @ ''/'' @ skinClusterNode)
         \<or> can_makedirs fs (fileName @ ''/'' @ skinClusterNode)"
    and "\<forall>j<length (influence sc).
           can_open fs ((fileName @ ''/'' @ skinClusterNode) @ ''/'' @ influence sc ! j @ ''.bsw'')"
    and "rows_cover (length (influence sc)) (getWeights sc)"
  shows "writeWeights p fs sc fileName exclusive =
     (Select [shape] # ForceNormalize skinClusterNode
        # (if path_exists fs (fileName @ ''/'' @ skinClusterNode) then []
           else [MakeDirs (fileName @ ''/'' @ skinClusterNode)])
        @ concat (map (\<lambda>j.
            [OpenFile ((fileName @ ''/'' @ skinClusterNode) @ ''/'' @ influence sc ! j @ ''.bsw''),
             WriteFile ((fileName @ ''/'' @ skinClusterNode) @ ''/'' @ influence sc ! j @ ''.bsw'')
               (join_with [nl]
                  (map (\<lambda>v. str_int p (int v) @ '' '' @ str_float p (getWeights sc ! v ! j))
                     [0..<length (getWeights sc)] @ ['''']))])
            [0..<length (influence sc)]),
      RInt 1)"
proof -
  have w: "writeWeights p fs sc fileName exclusive =
      (Select [shape] # fst (write_exclusive p fs sc fileName skinClusterNode (influence sc)),
       snd (write_exclusive p fs sc fileName skinClusterNode (influence sc)))"
    using assms(1-6) by (simp add: writeWeights_def Let_def)
  show ?thesis
    unfolding w write_exclusive_all [OF assms(7-9), of p] exclusive_lines_all fst_conv snd_conv
    by (rule refl)
qed

text \<open>
  C8, as the code has it. In the exclusive mode the export makes the directory named after
  the skinCluster under the given path, if it does not exist, and writes one file for each
  influence, named after it. The file of influence j has the line
  \<^verbatim>\<open><vertexIndex> <weight>\<close> for every vertex, in ascending order, whatever the weight is,
  and the empty last line.
\<close>

theorem exclusive_export_writes_every_vertex:
  assumes "selection sc = skinClusterNode # others"
    and "nodeType sc skinClusterNode = ''skinCluster''"
    and "influence sc \<noteq> []"
    and "geometry sc = shape # shapes"
    and "shape \<noteq> []"
    and "exclusive \<noteq> 0"
    and "path_exists fs (fileName @ ''/'' @ skinClusterNode)
         \<or> can_makedirs fs (fileName @ ''/'' @ skinClusterNode)"
    and "\<forall>j<length (influence sc).
           can_open fs ((fileName @ ''/'' @ skinClusterNode) @ ''/'' @ influence sc ! j @ ''.bsw'')"
    and "rows_cover (length (influence sc)) (getWeights sc)"
  shows "writeWeights p fs sc fileName exclusive =
     (Select [shape] # ForceNormalize skinClusterNode
        # (if path_exists fs (fileName @ ''/'' @ skinClusterNode) then []
           else [MakeDirs (fileName @ ''/'' @ skinClusterNode)])
        @ concat (map (\<lambda>j.
            [OpenFile ((fileName @ ''/'' @ skinClusterNode) @ ''/'' @ influence sc ! j @ ''.bsw''),
             WriteFile ((fileName @ ''/'' @ skinClusterNode) @ ''/'' @ influence sc ! j @ ''.bsw'')
               (join_with [nl]
                  (map (\<lambda>v. str_int p (int v) @ '' '' @ str_float p (getWeights sc ! v ! j))
                     [0..<length (getWeights sc)] @ ['''']))])
            [0..<length (influence sc)]),
      RInt 1)"
  by (rule writeWeights_exclusive [OF assms])

lemma demo_exclusive_files:
  "writeWeights demo_py demo_fsys demo_skin ''out'' 1 =
     ([Select [''Mesh''], ForceNormalize ''skinA'', MakeDirs ''out/skinA'',
       OpenFile ''out/skinA/J1.bsw'',
       WriteFile ''out/skinA/J1.bsw'' (join_with [nl] [''0 0.6'', ''1 0.0'', '''']),
       OpenFile ''out/skinA/J2.bsw'',
       WriteFile ''out/skinA/J2.bsw'' (join_with [nl] [''0 0.4'', ''1 1.0'', ''''])],
      RInt 1)"
proof -
  have a: "selection demo_skin = ''skinA'' # []" "nodeType demo_skin ''skinA'' = ''skinCluster''"
    "influence demo_skin \<noteq> []" "geometry demo_skin = ''Mesh'' # []" "''Mesh'' \<noteq> []"
    "(1::int) \<noteq> 0"
    "path_exists demo_fsys (''out'' @ ''/'' @ ''skinA'')
       \<or> can_makedirs demo_fsys (''out'' @ ''/'' @ ''skinA'')"
    "\<forall>j<length (influence demo_skin).
       can_open demo_fsys ((''out'' @ ''/'' @ ''skinA'') @ ''/'' @ influence demo_skin ! j @ ''.bsw'')"
    "rows_cover (length (influence demo_skin)) (getWeights demo_skin)"
    by (simp_all add: demo_skin_fields demo_fsys_def rows_cover_def)
  show ?thesis
    unfolding writeWeights_exclusive [OF a, of demo_py]
    by (simp add: demo_skin_fields demo_fsys_def demo_py_fields demo_str_int_def
        demo_str_float_def)
qed

theorem exclusive_export_writes_every_vertex_witness:
  "selection demo_skin = ''skinA'' # [] \<and> nodeType demo_skin ''skinA'' = ''skinCluster''
   \<and> influence demo_skin \<noteq> [] \<and> geometry demo_skin = ''Mesh'' # [] \<and> ''Mesh'' \<noteq> []
   \<and> (1::int) \<noteq> 0
   \<and> can_makedirs demo_fsys (''out'' @ ''/'' @ ''skinA'')
   \<and> can_open demo_fsys ''out/skinA/J1.bsw'' \<and> can_open demo_fsys ''out/skinA/J2.bsw''
   \<and> rows_cover (length (influence demo_skin)) (getWeights demo_skin)
   \<and> writeWeights demo_py demo_fsys demo_skin ''out'' 1 =
       ([Select [''Mesh''], ForceNormalize ''skinA'', MakeDirs ''out/skinA'',
         OpenFile ''out/skinA/J1.bsw'',
         WriteFile ''out/skinA/J1.bsw'' (join_with [nl] [''0 0.6'', ''1 0.0'', '''']),
         OpenFile ''out/skinA/J2.bsw'',
         WriteFile ''out/skinA/J2.bsw'' (join_with [nl] [''0 0.4'', ''1 1.0'', ''''])],
        RInt 1)"
proof -
  have a: "selection demo_skin = ''skinA'' # []" "nodeType demo_skin ''skinA'' = ''skinCluster''"
    "influence demo_skin \<noteq> []" "geometry demo_skin = ''Mesh'' # []" "''Mesh'' \<noteq> []"
    "(1::int) \<noteq> 0"
    "path_exists demo_fsys (''out'' @ ''/'' @ ''skinA'')
       \<or> can_makedirs demo_fsys (''out'' @ ''/'' @ ''skinA'')"
    "\<forall>j<length (influence demo_skin).
       can_open demo_fsys ((''out'' @ ''/'' @ ''skinA'') @ ''/'' @ influence demo_skin ! j @ ''.bsw'')"
    "rows_cover (length (influence demo_skin)) (getWeights demo_skin)"
    by (simp_all add: demo_skin_fields demo_fsys_def rows_cover_def)
  have m: "can_makedirs demo_fsys (''out'' @ ''/'' @ ''skinA'')"
    by (simp add: demo_fsys_def)
  have "writeWeights demo_py demo_fsys demo_skin ''out'' 1 =
       ([Select [''Mesh''], ForceNormalize ''skinA'', MakeDirs ''out/skinA'',
         OpenFile ''out/skinA/J1.bsw'',
         WriteFile ''out/skinA/J1.bsw'' (join_with [nl] [''0 0.6'', ''1 0.0'', '''']),
         OpenFile ''out/skinA/J2.bsw'',
         WriteFile ''out/skinA/J2.bsw'' (join_with [nl] [''0 0.4'', ''1 1.0'', ''''])],
        RInt 1)"
    unfolding exclusive_export_writes_every_vertex [OF a, of demo_py]
    by (simp add: demo_skin_fields demo_fsys_def demo_py_fields demo_str_int_def
        demo_str_float_def)
  moreover have "can_open demo_fsys ''out/skinA/J1.bsw''" "can_open demo_fsys ''out/skinA/J2.bsw''"
    by (simp_all add: demo_fsys_def)
  ultimately show ?thesis using a(1-6,9) m by blast
qed

text \<open>
  In the example scene the weight of vertex 1 for the first influence J1 is zero, and the
  file of J1 has the line \<^verbatim>\<open>1 0.0\<close> for it.
\<close>

theorem exclusive_export_zero_weight_counterexample:
  "getWeights demo_skin ! 1 ! 0 = 0
   \<and> writeWeights demo_py demo_fsys demo_skin ''out'' 1 =
       ([Select [''Mesh''], ForceNormalize ''skinA'', MakeDirs ''out/skinA'',
         OpenFile ''out/skinA/J1.bsw'',
         WriteFile ''out/skinA/J1.bsw'' (join_with [nl] [''0 0.6'', ''1 0.0'', '''']),
         OpenFile ''out/skinA/J2.bsw'',
         WriteFile ''out/skinA/J2.bsw'' (join_with [nl] [''0 0.4'', ''1 1.0'', ''''])],
        RInt 1)"
  using demo_exclusive_files by (simp add: demo_skin_fields)

subsection \<open>The loop of the import\<close>

lemma subscript_rec_val [simp]:
  "subscript (rec_val r) 0 = Some (PInt (rec_vertex r))"
  "subscript (rec_val r) 2 = Some (PInt (rec_infl r))"
  "subscript (rec_val r) 3 = Some (PFloat (rec_weight r))"
  by (simp_all add: rec_val_def numeral_2_eq_2 numeral_3_eq_3)

lemma py_eq_PInt [simp]: "py_eq (PInt m) (PInt n) = (m = n)"
  by (simp add: py_eq_def)

lemma is_int_iff: "is_int v = (\<exists>n. v = PInt n)"
  by (cases v) simp_all

lemma int_boundsE:
  assumes "int_bounds a"
  obtains s e where "inflStart a = PInt s" and "inflEnd a = PInt e"
  using assms by (auto simp: int_bounds_def is_int_iff)

lemma int_bounds_acc0 [simp]: "int_bounds acc0"
  by (simp add: int_bounds_def acc0_def)

lemma int_bounds_writeData [simp]: "int_bounds (a\<lparr>writeData := x\<rparr>) = int_bounds a"
  by (simp add: int_bounds_def)

lemma enter_range_writeData:
  "enter_range (a\<lparr>writeData := x\<rparr>) w =
     map_option (\<lambda>b. b\<lparr>writeData := x\<rparr>) (enter_range a w)"
  apply (simp add: enter_range_def)
  apply (simp split: option.split)
  done

lemma absorb_writeData:
  "absorb p (a\<lparr>writeData := x\<rparr>) v = map_option (\<lambda>b. b\<lparr>writeData := x\<rparr>) (absorb p a v)"
  apply (simp add: absorb_def)
  apply (auto simp: enter_range_writeData split: option.split)
  done

lemma enter_range_keeps_writeData: "enter_range a w = Some b \<Longrightarrow> writeData b = writeData a"
  apply (simp add: enter_range_def split: if_splits option.splits)
  apply auto
  done

lemma absorb_keeps_writeData: "absorb p a v = Some b \<Longrightarrow> writeData b = writeData a"
  apply (simp add: absorb_def split: option.splits)
  apply (auto dest: enter_range_keeps_writeData)
  done

lemma enter_range_int:
  assumes "int_bounds a"
  shows "\<exists>b. enter_range a (PInt j) = Some b \<and> int_bounds b"
proof -
  from assms obtain s e where "inflStart a = PInt s" "inflEnd a = PInt e"
    by (rule int_boundsE)
  then show ?thesis
    by (simp add: enter_range_def int_bounds_def)
qed

lemma absorb_record:
  assumes "int_bounds a"
  shows "absorb p a (rec_val r) = Some (absorb_rec p a r)" and "int_bounds (absorb_rec p a r)"
proof -
  from enter_range_int [OF assms, of "rec_infl r"] obtain b
    where b: "enter_range a (PInt (rec_infl r)) = Some b" "int_bounds b" by blast
  then show e: "absorb p a (rec_val r) = Some (absorb_rec p a r)"
    by (simp add: absorb_rec_def absorb_def)
  from b have "absorb_rec p a r = b\<lparr>weightString := weightString b @ str_val p (PFloat (rec_weight r)) @ '' '',
      setCount := setCount b + 1\<rparr>"
    by (simp add: absorb_rec_def absorb_def)
  with b(2) show "int_bounds (absorb_rec p a r)"
    by (simp add: int_bounds_def)
qed

lemma writeData_absorb_rec [simp]: "writeData (absorb_rec p a r) = writeData a"
  by (auto simp: absorb_rec_def split: option.split dest: absorb_keeps_writeData)

lemma absorb_rec_writeData [simp]:
  "absorb_rec p (a\<lparr>writeData := x\<rparr>) r = (absorb_rec p a r)\<lparr>writeData := x\<rparr>"
  by (simp add: absorb_rec_def absorb_writeData split: option.split)

lemma flush_writeData [simp]: "flush (a\<lparr>writeData := x\<rparr>) c = flush a c"
  by (simp add: flush_def)

lemma writeData_acc0 [simp]: "writeData acc0 = 0"
  by (simp add: acc0_def)

lemma absorb_lacking:
  assumes "subscript v 2 = None \<or> subscript v 3 = None"
  shows "absorb p a v = None"
  using assms by (auto simp: absorb_def split: option.splits)

lemma replay_not_Nil: "replay p a (r # rs) \<noteq> []"
  by (induction p a "r # rs" arbitrary: r rs rule: replay.induct) auto

lemma upt_map_Cons:
  assumes "map f [k..<n] = map g (x # xs)"
  shows "k < n" and "[k..<n] = k # [Suc k..<n]" and "f k = g x"
    and "map f [Suc k..<n] = map g xs"
proof -
  from assms show "k < n" by (cases "k < n") auto
  then show c: "[k..<n] = k # [Suc k..<n]" by (rule upt_conv_Cons)
  from assms show "f k = g x" "map f [Suc k..<n] = map g xs"
    unfolding c by simp_all
qed

text \<open>One round of the loop on a line that evaluates to a record.\<close>

lemma apply_loop_last:
  assumes "eval p (wl ! k) = Some (rec_val r)" and "\<not> k < length wl - 2"
    and "writeData a = 0" and "int_bounds a"
  shows "apply_loop p wl (k # ks) a =
     (flush (absorb_rec p a r) (PInt (rec_vertex r)) # fst (apply_loop p wl ks acc0),
      snd (apply_loop p wl ks acc0))"
  using assms absorb_record(1) [OF assms(4), of p r]
  by (simp add: absorb_writeData)

lemma apply_loop_next:
  assumes "eval p (wl ! k) = Some (rec_val r)" and "k < length wl - 2"
    and "eval p (wl ! Suc k) = Some v" and "subscript v 0 = Some c"
    and "writeData a = 0" and "int_bounds a"
  shows "apply_loop p wl (k # ks) a =
     (if \<not> py_eq (PInt (rec_vertex r)) c
      then (flush (absorb_rec p a r) (PInt (rec_vertex r)) # fst (apply_loop p wl ks acc0),
            snd (apply_loop p wl ks acc0))
      else apply_loop p wl ks (absorb_rec p a r))"
  using assms absorb_record(1) [OF assms(6), of p r]
  by simp

lemma apply_loop_change:
  assumes "eval p (wl ! k) = Some (rec_val r)" and "k < length wl - 2"
    and "eval p (wl ! Suc k) = Some (rec_val s)" and "rec_vertex r \<noteq> rec_vertex s"
    and "writeData a = 0" and "int_bounds a"
  shows "apply_loop p wl (k # ks) a =
     (flush (absorb_rec p a r) (PInt (rec_vertex r)) # fst (apply_loop p wl ks acc0),
      snd (apply_loop p wl ks acc0))"
  using apply_loop_next [OF assms(1-3) subscript_rec_val(1) assms(5,6)] assms(4)
  by simp

lemma apply_loop_same:
  assumes "eval p (wl ! k) = Some (rec_val r)" and "k < length wl - 2"
    and "eval p (wl ! Suc k) = Some (rec_val s)" and "rec_vertex r = rec_vertex s"
    and "writeData a = 0" and "int_bounds a"
  shows "apply_loop p wl (k # ks) a = apply_loop p wl ks (absorb_rec p a r)"
  using apply_loop_next [OF assms(1-3) subscript_rec_val(1) assms(5,6)] assms(4)
  by simp

text \<open>One round of the loop that raises.\<close>

lemma apply_loop_fail_here:
  assumes "lacks_field p (wl ! k)"
  shows "apply_loop p wl (k # ks) a = ([], False)"
proof (cases "eval p (wl ! k)")
  case None
  then show ?thesis by simp
next
  case (Some v)
  with assms have "subscript v 0 = None \<or> subscript v 2 = None \<or> subscript v 3 = None"
    by (simp add: lacks_field_def)
  then show ?thesis
  proof (cases "subscript v 0 = None")
    case True
    with Some show ?thesis by (simp split: option.split)
  next
    case False
    with \<open>subscript v 0 = None \<or> subscript v 2 = None \<or> subscript v 3 = None\<close>
    have "subscript v 2 = None \<or> subscript v 3 = None" by simp
    then have "absorb p b v = None" for b
      by (rule absorb_lacking)
    with Some show ?thesis by (simp split: option.split)
  qed
qed

lemma apply_loop_fail_next:
  assumes "eval p (wl ! k) = Some (rec_val r)" and "k < length wl - 2"
    and "line_vertex p (wl ! Suc k) = None"
  shows "apply_loop p wl (k # ks) a = ([], False)"
proof (cases "eval p (wl ! Suc k)")
  case None
  with assms(1,2) show ?thesis by simp
next
  case (Some v)
  with assms(3) have "subscript v 0 = None" by (simp add: line_vertex_def)
  with Some assms(1,2) show ?thesis by (simp split: option.split)
qed

text \<open>The loop on lines that all evaluate to records.\<close>

lemma apply_loop_replay:
  assumes "writeData a = 0" and "int_bounds a"
    and "map (\<lambda>i. eval p (wl ! i)) [k..<length wl - 1] = map (\<lambda>r. Some (rec_val r)) recs"
  shows "apply_loop p wl [k..<length wl - 1] a = (replay p a recs, True)"
  using assms
proof (induction p a recs arbitrary: k rule: replay.induct)
  case (1 p a)
  then have "[k..<length wl - 1] = []" by simp
  then show ?case by (simp only: apply_loop.simps replay.simps)
next
  case (2 p a r)
  note k = upt_map_Cons [OF 2(3)]
  from k(4) have e: "[Suc k..<length wl - 1] = []" by simp
  from k(1) e have "\<not> k < length wl - 2" by auto
  from apply_loop_last [OF k(3) this 2(1,2)] show ?case
    unfolding k(2) e by simp
next
  case (3 p a r s rs)
  note k = upt_map_Cons [OF "3.prems"(3)]
  note s = upt_map_Cons [OF k(4)]
  from s(1) have lt: "k < length wl - 2" by auto
  note ab = absorb_record(2) [OF "3.prems"(2), of p r]
  show ?case
  proof (cases "rec_vertex r \<noteq> rec_vertex s")
    case True
    from "3.IH"(1) [OF True _ _ k(4)] have "apply_loop p wl [Suc k..<length wl - 1] acc0
      = (replay p acc0 (s # rs), True)" by simp
    with apply_loop_change [OF k(3) lt s(3) True "3.prems"(1,2)] True show ?thesis
      unfolding k(2) by simp
  next
    case False
    then have eq: "rec_vertex r = rec_vertex s" by simp
    from "3.IH"(2) [OF False _ ab k(4)] "3.prems"(1)
    have "apply_loop p wl [Suc k..<length wl - 1] (absorb_rec p a r)
      = (replay p (absorb_rec p a r) (s # rs), True)" by simp
    with apply_loop_same [OF k(3) lt s(3) eq "3.prems"(1,2)] eq show ?thesis
      unfolding k(2) by simp
  qed
qed

text \<open>
  The loop up to a line that makes its round raise. The range in progress is written
  before the raise when the value of the line has a \<^verbatim>\<open>[0]\<close> that differs from the vertex of
  the record before it.
\<close>

lemma apply_loop_raise:
  assumes "writeData a = 0" and "int_bounds a"
    and "map (\<lambda>i. eval p (wl ! i)) [k..<m] = map (\<lambda>r. Some (rec_val r)) pre"
    and "lacks_field p (wl ! m)"
    and "k \<le> m" and "m < length wl - 1"
  shows "apply_loop p wl [k..<length wl - 1] a =
     (case line_vertex p (wl ! m) of
        None \<Rightarrow> butlast (replay p a pre)
      | Some c \<Rightarrow>
          if pre \<noteq> [] \<and> \<not> py_eq (PInt (rec_vertex (last pre))) c then replay p a pre
          else butlast (replay p a pre),
      False)"
  using assms
proof (induction p a pre arbitrary: k rule: replay.induct)
  case (1 p a)
  then have "k = m" by (cases "k < m") auto
  with 1 have "[k..<length wl - 1] = k # [Suc k..<length wl - 1]"
    by (simp add: upt_conv_Cons)
  with apply_loop_fail_here [of p wl k] "1.prems"(4) \<open>k = m\<close> show ?case
    by (simp split: option.split)
next
  case (2 p a r)
  note k = upt_map_Cons [OF "2.prems"(3)]
  from k(4) have "[Suc k..<m] = []" by simp
  with k(1) have m: "m = Suc k" by auto
  with "2.prems"(6) have l: "[k..<length wl - 1] = k # Suc k # [Suc (Suc k)..<length wl - 1]"
    "k < length wl - 2"
    by (simp_all add: upt_conv_Cons)
  have bad: "lacks_field p (wl ! Suc k)" using "2.prems"(4) m by simp
  show ?case
  proof (cases "line_vertex p (wl ! Suc k)")
    case None
    from apply_loop_fail_next [OF k(3) l(2) None] None show ?thesis
      unfolding l(1) m by simp
  next
    case (Some c)
    then obtain v where v: "eval p (wl ! Suc k) = Some v" "subscript v 0 = Some c"
      by (auto simp: line_vertex_def split: option.splits)
    note st = apply_loop_next [OF k(3) l(2) v "2.prems"(1,2)]
    note fl = apply_loop_fail_here [OF bad]
    show ?thesis
      unfolding l(1) m Some st fl by simp
  qed
next
  case (3 p a r s rs)
  note k = upt_map_Cons [OF "3.prems"(3)]
  note s = upt_map_Cons [OF k(4)]
  from s(1) "3.prems"(6) have lt: "k < length wl - 2"
    "[k..<length wl - 1] = k # [Suc k..<length wl - 1]"
    by (simp_all add: upt_conv_Cons)
  have le: "Suc k \<le> m" using s(1) by simp
  note ab = absorb_record(2) [OF "3.prems"(2), of p r]
  show ?case
  proof (cases "rec_vertex r \<noteq> rec_vertex s")
    case True
    from "3.IH"(1) [OF True _ _ k(4) "3.prems"(4) le "3.prems"(6)]
    have "apply_loop p wl [Suc k..<length wl - 1] acc0 =
      (case line_vertex p (wl ! m) of
         None \<Rightarrow> butlast (replay p acc0 (s # rs))
       | Some c \<Rightarrow>
           if s # rs \<noteq> [] \<and> \<not> py_eq (PInt (rec_vertex (last (s # rs)))) c
           then replay p acc0 (s # rs)
           else butlast (replay p acc0 (s # rs)),
       False)"
      by simp
    with apply_loop_change [OF k(3) lt(1) s(3) True "3.prems"(1,2)] True show ?thesis
      unfolding lt(2) by (simp add: replay_not_Nil split: option.split)
  next
    case False
    then have eq: "rec_vertex r = rec_vertex s" by simp
    from "3.IH"(2) [OF False _ ab k(4) "3.prems"(4) le "3.prems"(6)] "3.prems"(1)
    have "apply_loop p wl [Suc k..<length wl - 1] (absorb_rec p a r) =
      (case line_vertex p (wl ! m) of
         None \<Rightarrow> butlast (replay p (absorb_rec p a r) (s # rs))
       | Some c \<Rightarrow>
           if s # rs \<noteq> [] \<and> \<not> py_eq (PInt (rec_vertex (last (s # rs)))) c
           then replay p (absorb_rec p a r) (s # rs)
           else butlast (replay p (absorb_rec p a r) (s # rs)),
       False)"
      by simp
    with apply_loop_same [OF k(3) lt(1) s(3) eq "3.prems"(1,2)] eq show ?thesis
      unfolding lt(2) by (simp split: option.split)
  qed
qed

text \<open>
  Whatever the line after them is, the ranges that a change of vertex closed among the
  records before it are written.
\<close>

lemma apply_loop_prefix:
  assumes "writeData a = 0" and "int_bounds a"
    and "map (\<lambda>i. eval p (wl ! i)) [k..<m] = map (\<lambda>r. Some (rec_val r)) pre"
    and "k \<le> m" and "m \<le> length wl - 1"
  shows "\<exists>rest. fst (apply_loop p wl [k..<length wl - 1] a) = butlast (replay p a pre) @ rest"
  using assms
proof (induction p a pre arbitrary: k rule: replay.induct)
  case (1 p a)
  then show ?case by simp
next
  case (2 p a r)
  then show ?case by simp
next
  case (3 p a r s rs)
  note k = upt_map_Cons [OF "3.prems"(3)]
  note s = upt_map_Cons [OF k(4)]
  from s(1) "3.prems"(5) have lt: "k < length wl - 2"
    "[k..<length wl - 1] = k # [Suc k..<length wl - 1]"
    by (simp_all add: upt_conv_Cons)
  have le: "Suc k \<le> m" using s(1) by simp
  note ab = absorb_record(2) [OF "3.prems"(2), of p r]
  show ?case
  proof (cases "rec_vertex r \<noteq> rec_vertex s")
    case True
    from "3.IH"(1) [OF True _ _ k(4) le "3.prems"(5)]
    obtain rest where "fst (apply_loop p wl [Suc k..<length wl - 1] acc0)
      = butlast (replay p acc0 (s # rs)) @ rest"
      by auto
    with apply_loop_change [OF k(3) lt(1) s(3) True "3.prems"(1,2)] True show ?thesis
      unfolding lt(2) by (simp add: replay_not_Nil)
  next
    case False
    then have eq: "rec_vertex r = rec_vertex s" by simp
    from "3.IH"(2) [OF False _ ab k(4) le "3.prems"(5)] "3.prems"(1)
    obtain rest where "fst (apply_loop p wl [Suc k..<length wl - 1] (absorb_rec p a r))
      = butlast (replay p (absorb_rec p a r) (s # rs)) @ rest"
      by auto
    with apply_loop_same [OF k(3) lt(1) s(3) eq "3.prems"(1,2)] eq show ?thesis
      unfolding lt(2) by simp
  qed
qed

lemma record_lines_nth: "record_lines wl = map ((!) wl) [3..<length wl - 1]"
  unfolding record_lines_def
  by (rule nth_equalityI) (auto simp: nth_butlast)

lemma length_record_lines: "length (record_lines wl) = length wl - 1 - 3"
  by (simp add: record_lines_nth)

lemma last_record_line:
  assumes "record_lines wl \<noteq> []"
  shows "wl ! (length wl - 2) = last (record_lines wl)"
proof -
  define k where "k = length wl - 2"
  from assms have "4 < length wl"
    using length_record_lines [of wl] by (cases "4 < length wl") auto
  then have k: "length wl - 1 = Suc k" "3 \<le> k"
    by (simp_all add: k_def)
  have "record_lines wl = map ((!) wl) [3..<Suc k]"
    using k(1) by (simp only: record_lines_nth)
  with k(2) show ?thesis by (simp add: k_def)
qed

lemma readWeights_checked:
  assumes "read_file d fileName = Some weightData"
    and "select_ok d (header_objects (split_on nl weightData ! 0) ro)"
    and "\<not> already_bound d (header_shape (split_on nl weightData ! 0))"
    and "3 \<le> length (split_on nl weightData)"
  shows "readWeights p d fileName ro =
     (Select (header_objects (split_on nl weightData ! 0) ro)
        # fst (apply_weights p d (split_on nl weightData)
                 (header_shape (split_on nl weightData ! 0)) (split_on nl weightData ! 1)),
      snd (apply_weights p d (split_on nl weightData)
             (header_shape (split_on nl weightData ! 0)) (split_on nl weightData ! 1)))"
  using assms by (simp add: readWeights_def Let_def)

text \<open>
  The steps between the pruning and the loop, by the value of the line before the last:
  what they add to the effects, and the size they set, if they do not raise.
\<close>

lemma apply_weights_sized:
  assumes "eval p (wl ! (length wl - 2)) = Some w" and "subscript w 0 = Some mx"
    and "plus_one mx = Some n"
  shows "apply_weights p d wl shape name =
     (let r = apply_loop p wl [3..<length wl - 1] acc0;
          sized = [NewSkinCluster (bind_command d (wl ! 2)),
                   Rename (new_cluster d (bind_command d (wl ! 2))) name,
                   SetAttrNw name 0, PruneWeights name shape, Select [name], SetSize n]
      in if snd r then (sized @ fst r @ [SetAttrNw name (nw_attr d name)], RInt 1)
         else (sized @ fst r, Raised))"
  using assms by (simp add: apply_weights_def Let_def)

lemma readWeights_replay:
  assumes rf: "read_file d fileName = Some weightData"
    and sel: "select_ok d (header_objects (split_on nl weightData ! 0) ro)"
    and nb: "\<not> already_bound d (header_shape (split_on nl weightData ! 0))"
    and ev: "map (eval p) (record_lines (split_on nl weightData))
               = map (\<lambda>r. Some (rec_val r)) recs"
    and ne: "recs \<noteq> []"
  shows "readWeights p d fileName ro =
     (binding_effects d (split_on nl weightData) ro
        @ [Select [split_on nl weightData ! 1], SetSize (PInt (rec_vertex (last recs) + 1))]
        @ replay p acc0 recs
        @ [SetAttrNw (split_on nl weightData ! 1) (nw_attr d (split_on nl weightData ! 1))],
      RInt 1)"
proof -
  let ?wl = "split_on nl weightData"
  from ev have "length (record_lines ?wl) = length recs"
    by (metis length_map)
  with ne have r: "record_lines ?wl \<noteq> []" by auto
  then have n: "3 \<le> length ?wl"
    using length_record_lines [of ?wl] by (cases "3 \<le> length ?wl") auto
  have "eval p (last (record_lines ?wl)) = last (map (eval p) (record_lines ?wl))"
    using r by (simp add: last_map)
  also have "\<dots> = Some (rec_val (last recs))"
    unfolding ev using ne by (simp add: last_map)
  finally have l: "eval p (?wl ! (length ?wl - 2)) = Some (rec_val (last recs))"
    by (simp add: last_record_line [OF r])
  have "map (\<lambda>i. eval p (?wl ! i)) [3..<length ?wl - 1] = map (\<lambda>r. Some (rec_val r)) recs"
    using ev by (simp add: record_lines_nth comp_def)
  from apply_loop_replay [OF _ _ this]
  have "apply_loop p ?wl [3..<length ?wl - 1] acc0 = (replay p acc0 recs, True)"
    by simp
  then show ?thesis
    unfolding readWeights_checked [OF rf sel nb n]
      apply_weights_sized [OF l subscript_rec_val(1) plus_one.simps(1)]
    by (simp add: binding_effects_def Let_def)
qed

lemma readWeights_raise:
  assumes rf: "read_file d fileName = Some weightData"
    and sel: "select_ok d (header_objects (split_on nl weightData ! 0) ro)"
    and nb: "\<not> already_bound d (header_shape (split_on nl weightData ! 0))"
    and m: "m < length (record_lines (split_on nl weightData))"
    and ev: "map (eval p) (take m (record_lines (split_on nl weightData)))
               = map (\<lambda>r. Some (rec_val r)) pre"
    and bad: "lacks_field p (record_lines (split_on nl weightData) ! m)"
  shows "readWeights p d fileName ro =
     (case line_vertex p (last (record_lines (split_on nl weightData))) of
        None \<Rightarrow> (binding_effects d (split_on nl weightData) ro, Raised)
      | Some mx \<Rightarrow>
          (case plus_one mx of
             None \<Rightarrow>
               (binding_effects d (split_on nl weightData) ro
                  @ [Select [split_on nl weightData ! 1]], Raised)
           | Some n \<Rightarrow>
               (binding_effects d (split_on nl weightData) ro
                  @ [Select [split_on nl weightData ! 1], SetSize n]
                  @ (case line_vertex p (record_lines (split_on nl weightData) ! m) of
                       None \<Rightarrow> butlast (replay p acc0 pre)
                     | Some c \<Rightarrow>
                         if pre \<noteq> [] \<and> \<not> py_eq (PInt (rec_vertex (last pre))) c
                         then replay p acc0 pre
                         else butlast (replay p acc0 pre)),
                Raised)))"
proof -
  let ?wl = "split_on nl weightData"
  from m have r: "record_lines ?wl \<noteq> []" by auto
  from m have n: "3 \<le> length ?wl" "3 + m < length ?wl - 1"
    using length_record_lines [of ?wl] by auto
  have t: "take m (record_lines ?wl) = map ((!) ?wl) [3..<3 + m]"
    using n by (simp add: record_lines_nth take_map take_upt)
  have e: "map (\<lambda>i. eval p (?wl ! i)) [3..<3 + m] = map (\<lambda>r. Some (rec_val r)) pre"
    using ev unfolding t by (simp add: comp_def)
  have i: "record_lines ?wl ! m = ?wl ! (3 + m)"
    using m by (simp add: record_lines_nth)
  have b: "lacks_field p (?wl ! (3 + m))"
    using bad unfolding i .
  note lp = apply_loop_raise [OF writeData_acc0 int_bounds_acc0 e b _ n(2), simplified]
  show ?thesis
    unfolding readWeights_checked [OF rf sel nb n(1)] i
    by (simp add: apply_weights_def binding_effects_def Let_def last_record_line [OF r] lp
        line_vertex_def split: option.split)
qed

lemma readWeights_prefix:
  assumes rf: "read_file d fileName = Some weightData"
    and sel: "select_ok d (header_objects (split_on nl weightData ! 0) ro)"
    and nb: "\<not> already_bound d (header_shape (split_on nl weightData ! 0))"
    and m: "m \<le> length (record_lines (split_on nl weightData))"
    and ev: "map (eval p) (take m (record_lines (split_on nl weightData)))
               = map (\<lambda>r. Some (rec_val r)) pre"
    and sz: "line_vertex p (split_on nl weightData ! (length (split_on nl weightData) - 2))
               = Some mx"
      "plus_one mx = Some n"
    and len: "3 \<le> length (split_on nl weightData)"
  shows "\<exists>rest. fst (readWeights p d fileName ro) =
     binding_effects d (split_on nl weightData) ro
       @ [Select [split_on nl weightData ! 1], SetSize n]
       @ butlast (replay p acc0 pre) @ rest"
proof -
  let ?wl = "split_on nl weightData"
  have "\<exists>rest. fst (apply_loop p ?wl [3..<length ?wl - 1] acc0)
      = butlast (replay p acc0 pre) @ rest"
  proof (cases "m = 0")
    case True
    with ev have "pre = []" by simp
    then show ?thesis by simp
  next
    case False
    with m have n: "3 + m \<le> length ?wl - 1"
      using length_record_lines [of ?wl] by auto
    have t: "take m (record_lines ?wl) = map ((!) ?wl) [3..<3 + m]"
      using n by (simp add: record_lines_nth take_map take_upt)
    have e: "map (\<lambda>i. eval p (?wl ! i)) [3..<3 + m] = map (\<lambda>r. Some (rec_val r)) pre"
      using ev unfolding t by (simp add: comp_def)
    from apply_loop_prefix [OF writeData_acc0 int_bounds_acc0 e _ n]
    show ?thesis by simp
  qed
  then obtain rest where lp: "fst (apply_loop p ?wl [3..<length ?wl - 1] acc0)
      = butlast (replay p acc0 pre) @ rest"
    by auto
  from sz(1) obtain w where w: "eval p (?wl ! (length ?wl - 2)) = Some w"
      "subscript w 0 = Some mx"
    by (auto simp: line_vertex_def split: option.splits)
  have "fst (readWeights p d fileName ro) =
     binding_effects d ?wl ro @ [Select [?wl ! 1], SetSize n]
       @ butlast (replay p acc0 pre)
       @ (rest @ (if snd (apply_loop p ?wl [3..<length ?wl - 1] acc0)
                  then [SetAttrNw (?wl ! 1) (nw_attr d (?wl ! 1))] else []))"
    unfolding readWeights_checked [OF rf sel nb len] apply_weights_sized [OF w sz(2)]
    using lp by (simp add: binding_effects_def Let_def)
  then show ?thesis by (rule exI)
qed

lemma runs_not_Nil: "runs (r # rs) \<noteq> []"
  by (induction "r # rs" arbitrary: r rs rule: runs.induct) auto

lemma runs_no_empty_run: "[] \<notin> set (runs rs)"
proof (induction rs rule: runs.induct)
  case (3 r s rs)
  then show ?case
    using runs_not_Nil [of s rs] by (auto dest: list.set_sel(2))
qed simp_all

lemma concat_runs: "concat (runs rs) = rs"
proof (induction rs rule: runs.induct)
  case (3 r s rs)
  then show ?case
    using runs_not_Nil [of s rs] by (cases "runs (s # rs)") auto
qed simp_all

lemma replay_runs:
  "replay p a (r # rs) =
     run_flush p a (hd (runs (r # rs))) # map (run_flush p acc0) (tl (runs (r # rs)))"
proof (induction p a "r # rs" arbitrary: r rs rule: replay.induct)
  case (2 p a r)
  then show ?case by (simp add: run_flush_def)
next
  case (3 p a r s rs)
  have ne: "hd (runs (s # rs)) \<noteq> []"
    using runs_no_empty_run [of "s # rs"] runs_not_Nil [of s rs]
    by (metis list.set_sel(1))
  show ?case
  proof (cases "rec_vertex r \<noteq> rec_vertex s")
    case True
    with 3(1) [OF True] runs_not_Nil [of s rs] show ?thesis
      by (cases "runs (s # rs)") (simp_all add: run_flush_def)
  next
    case False
    with 3(2) [OF False] ne show ?thesis
      by (simp add: run_flush_def)
  qed
qed

lemma replay_acc0_runs: "replay p acc0 rs = map (run_flush p acc0) (runs rs)"
proof (cases rs)
  case (Cons r rs')
  with replay_runs [of p acc0 r rs'] runs_not_Nil [of r rs'] show ?thesis
    by (cases "runs (r # rs')") simp_all
qed simp

subsection \<open>Ranges of ascending influence indices\<close>

lemma weight_text_Nil [simp]: "weight_text p [] x = ''0 ''"
  by (simp add: weight_text_def)

lemma weight_text_Cons [simp]:
  "weight_text p (q # pre) x =
     (if rec_infl q = x then str_float p (rec_weight q) @ '' '' else weight_text p pre x)"
  by (simp add: weight_text_def)

lemma weight_text_other:
  "rec_infl r \<noteq> x \<Longrightarrow> weight_text p (pre @ [r]) x = weight_text p pre x"
  by (induction pre) simp_all

lemma weight_text_absent:
  "\<forall>q\<in>set pre. rec_infl q \<noteq> x \<Longrightarrow> weight_text p pre x = ''0 ''"
  by (induction pre) simp_all

lemma weight_text_new:
  "\<forall>q\<in>set pre. rec_infl q \<noteq> rec_infl r \<Longrightarrow>
     weight_text p (pre @ [r]) (rec_infl r) = str_float p (rec_weight r) @ '' ''"
  by (induction pre) simp_all

lemma weights_extended:
  assumes "s \<le> e" and "e < rec_infl r" and "\<forall>q\<in>set pre. rec_infl q \<le> e"
  shows "concat (map (weight_text p (pre @ [r])) [s..rec_infl r]) =
     concat (map (weight_text p pre) [s..e])
       @ concat (replicate (nat (rec_infl r - (e + 1))) ''0 '')
       @ str_float p (rec_weight r) @ '' ''"
proof -
  let ?j = "rec_infl r"
  have 1: "[s..?j] = [s..e] @ [e + 1..?j - 1] @ [?j]"
    using assms(1,2) upto_split2 [of s e ?j] upto_rec2 [of "e + 1" ?j] by simp
  have 2: "map (weight_text p (pre @ [r])) [s..e] = map (weight_text p pre) [s..e]"
    using assms(2) by (intro map_cong refl weight_text_other) auto
  have "weight_text p (pre @ [r]) x = ''0 ''" if "x \<in> set [e + 1..?j - 1]" for x
    using that assms(3) by (intro weight_text_absent) fastforce
  then have "map (weight_text p (pre @ [r])) [e + 1..?j - 1] = map (\<lambda>x. ''0 '') [e + 1..?j - 1]"
    by (intro map_cong refl)
  then have 3: "map (weight_text p (pre @ [r])) [e + 1..?j - 1]
      = replicate (nat (?j - (e + 1))) ''0 ''"
    by (simp add: map_replicate_const)
  have 4: "weight_text p (pre @ [r]) ?j = str_float p (rec_weight r) @ '' ''"
    using assms(2,3) by (intro weight_text_new) fastforce
  show ?thesis unfolding 1 by (simp add: 2 3 4)
qed

lemma enter_range_fields:
  assumes "inflStart a = PInt s" and "s \<noteq> - 1" and "inflEnd a = PInt e"
  shows "enter_range a (PInt j) =
     Some (a\<lparr>weightString := weightString a @ concat (replicate (nat (j - (e + 1))) ''0 ''),
             setCount := setCount a + int (nat (j - (e + 1))),
             inflEnd := PInt j\<rparr>)"
proof (cases "e = j - 1")
  case True
  with assms show ?thesis by (simp add: enter_range_def)
next
  case False
  with assms show ?thesis by (simp add: enter_range_def)
qed

lemma absorb_fields:
  assumes "inflStart a = PInt s" and "s \<noteq> - 1" and "inflEnd a = PInt e"
  shows "inflStart (absorb_rec p a r) = PInt s"
    and "inflEnd (absorb_rec p a r) = PInt (rec_infl r)"
    and "weightString (absorb_rec p a r) =
           weightString a @ concat (replicate (nat (rec_infl r - (e + 1))) ''0 '')
             @ str_float p (rec_weight r) @ '' ''"
    and "setCount (absorb_rec p a r) = setCount a + int (nat (rec_infl r - (e + 1))) + 1"
  using assms
  by (simp_all add: absorb_rec_def absorb_def enter_range_fields [OF assms] str_float_def)

lemma absorb_acc0_fields:
  shows "inflStart (absorb_rec p acc0 r) = PInt (rec_infl r)"
    and "inflEnd (absorb_rec p acc0 r) = PInt (rec_infl r)"
    and "weightString (absorb_rec p acc0 r) = str_float p (rec_weight r) @ '' ''"
    and "setCount (absorb_rec p acc0 r) = 1"
  by (simp_all add: absorb_rec_def absorb_def enter_range_def acc0_def str_float_def)

lemma absorb_run:
  assumes "inflStart a = PInt s" and "s \<noteq> - 1" and "inflEnd a = PInt e" and "s \<le> e"
    and "weightString a = concat (map (weight_text p pre) [s..e])"
    and "setCount a = e - s + 1"
    and "\<forall>q\<in>set pre. rec_infl q \<le> e"
    and "sorted_wrt (<) (map rec_infl rest)"
    and "\<forall>q\<in>set rest. e < rec_infl q"
  shows "flush (foldl (absorb_rec p) a rest) v =
     SetWeights (last (e # map rec_infl rest) - s + 1) v (PInt s)
       (PInt (last (e # map rec_infl rest)))
       (concat (map (weight_text p (pre @ rest)) [s..last (e # map rec_infl rest)]))"
  using assms
proof (induction rest arbitrary: a e pre)
  case Nil
  then show ?case by (simp add: flush_def)
next
  case (Cons r rest)
  let ?j = "rec_infl r"
  from Cons.prems have lt: "e < ?j" by simp
  note f = absorb_fields [OF Cons.prems(1,2,3), of p r]
  have 4: "s \<le> ?j" using lt Cons.prems(4) by simp
  have 5: "weightString (absorb_rec p a r) = concat (map (weight_text p (pre @ [r])) [s..?j])"
    unfolding f(3) weights_extended [OF Cons.prems(4) lt Cons.prems(7)]
    using Cons.prems(5) by simp
  have 6: "setCount (absorb_rec p a r) = ?j - s + 1"
    unfolding f(4) using Cons.prems(6) lt by simp
  have 7: "\<forall>q\<in>set (pre @ [r]). rec_infl q \<le> ?j"
    using Cons.prems(7) lt by fastforce
  have 8: "sorted_wrt (<) (map rec_infl rest)"
    using Cons.prems(8) by simp
  have 9: "\<forall>q\<in>set rest. ?j < rec_infl q"
    using Cons.prems(8) by simp
  from Cons.IH [OF f(1) Cons.prems(2) f(2) 4 5 6 7 8 9]
  show ?case by simp
qed

lemma run_flush_sorted:
  assumes "run \<noteq> []"
    and "sorted_wrt (<) (map rec_infl run)"
    and "rec_infl (hd run) \<noteq> - 1"
    and "rec_vertex (last run) = rec_vertex (hd run)"
  shows "run_flush p acc0 run = run_command p run"
proof -
  from assms(1) obtain r rest where run: "run = r # rest"
    by (cases run) auto
  let ?j = "rec_infl r"
  note f = absorb_acc0_fields [of p r]
  have 5: "weightString (absorb_rec p acc0 r) = concat (map (weight_text p [r]) [?j..?j])"
    unfolding f(3) by simp
  have 6: "setCount (absorb_rec p acc0 r) = ?j - ?j + 1"
    unfolding f(4) by simp
  have 2: "?j \<noteq> - 1" using assms(3) run by simp
  have 8: "sorted_wrt (<) (map rec_infl rest)" using assms(2) run by simp
  have 9: "\<forall>q\<in>set rest. ?j < rec_infl q" using assms(2) run by simp
  have l: "last (?j # map rec_infl rest) = rec_infl (last run)"
    unfolding run by (simp add: last_map)
  from absorb_run [OF f(1) 2 f(2) order_refl 5 6 _ 8 9, of "PInt (rec_vertex (last run))"]
  show ?thesis
    unfolding run_flush_def run_command_def l
    using assms(4) run by simp
qed

subsection \<open>The runs of an ordered record list\<close>

lemma hd_hd_runs: "hd (hd (runs (r # rs))) = r"
  by (induction "r # rs" arbitrary: r rs rule: runs.induct) auto

lemma runs_join:
  assumes "rec_vertex r = rec_vertex s"
  obtains run R where "runs (s # rs) = run # R" and "runs (r # s # rs) = (r # run) # R"
    and "hd run = s"
proof -
  obtain run R where 1: "runs (s # rs) = run # R"
    using runs_not_Nil [of s rs] by (cases "runs (s # rs)") auto
  with hd_hd_runs [of s rs] have "hd run = s" by simp
  with 1 assms that show ?thesis by simp
qed

lemma runs_split:
  assumes "rec_vertex r \<noteq> rec_vertex s"
  shows "runs (r # s # rs) = [r] # runs (s # rs)"
  using assms by simp

lemma sorted_wrt_ConsD:
  assumes "sorted_wrt P (x # ys)"
  shows "sorted_wrt P ys" and "\<And>y. y \<in> set ys \<Longrightarrow> P x y"
  using assms by simp_all

lemma runs_one_vertex:
  "run \<in> set (runs rs) \<Longrightarrow> q \<in> set run \<Longrightarrow> rec_vertex q = rec_vertex (hd run)"
proof (induction rs arbitrary: run q rule: runs.induct)
  case 1
  then show ?case by simp
next
  case (2 r)
  then show ?case by simp
next
  case (3 r s rs)
  show ?case
  proof (cases "rec_vertex r = rec_vertex s")
    case True
    then obtain run' R where R: "runs (s # rs) = run' # R"
      "runs (r # s # rs) = (r # run') # R" "hd run' = s"
      by (rule runs_join)
    have ih: "rec_vertex x = rec_vertex (hd run'')"
      if "run'' \<in> set (runs (s # rs))" "x \<in> set run''" for run'' x
      using "3.IH"(2) [OF _ that] True by simp
    have v: "rec_vertex x = rec_vertex r" if "x \<in> set run'" for x
      using ih [of run' x] that R(1,3) True by simp
    from "3.prems"(1) have "run = r # run' \<or> run \<in> set R"
      unfolding R(2) by simp
    then show ?thesis
    proof
      assume run: "run = r # run'"
      with "3.prems"(2) have "q = r \<or> q \<in> set run'" by simp
      then have "rec_vertex q = rec_vertex r" using v [of q] by blast
      then show ?thesis unfolding run by simp
    next
      assume "run \<in> set R"
      then have "run \<in> set (runs (s # rs))" unfolding R(1) by simp
      from ih [OF this "3.prems"(2)] show ?thesis .
    qed
  next
    case False
    from "3.prems"(1) have "run = [r] \<or> run \<in> set (runs (s # rs))"
      unfolding runs_split [OF False] by simp
    then show ?thesis
    proof
      assume "run = [r]"
      with "3.prems"(2) show ?thesis by simp
    next
      assume "run \<in> set (runs (s # rs))"
      from "3.IH"(1) [OF False this "3.prems"(2)] show ?thesis .
    qed
  qed
qed

lemma set_run_subset: "run \<in> set (runs rs) \<Longrightarrow> set run \<subseteq> set rs"
proof -
  assume "run \<in> set (runs rs)"
  then have "set run \<subseteq> set (concat (runs rs))" by auto
  then show ?thesis by (simp only: concat_runs)
qed

lemma runs_infl_sorted:
  "sorted_wrt rec_before rs \<Longrightarrow> run \<in> set (runs rs) \<Longrightarrow> sorted_wrt (<) (map rec_infl run)"
proof (induction rs arbitrary: run rule: runs.induct)
  case 1
  then show ?case by simp
next
  case (2 r)
  then show ?case by simp
next
  case (3 r s rs)
  note sorted = sorted_wrt_ConsD(1) [OF "3.prems"(1)]
  note before = sorted_wrt_ConsD(2) [OF "3.prems"(1)]
  show ?case
  proof (cases "rec_vertex r = rec_vertex s")
    case True
    then obtain run' R where R: "runs (s # rs) = run' # R"
      "runs (r # s # rs) = (r # run') # R" "hd run' = s"
      by (rule runs_join)
    have ih: "sorted_wrt (<) (map rec_infl run'')"
      if "run'' \<in> set (runs (s # rs))" for run''
      using "3.IH"(2) [OF _ sorted that] True by simp
    have m: "run' \<in> set (runs (s # rs))" unfolding R(1) by simp
    have lt: "rec_infl r < rec_infl x" if "x \<in> set run'" for x
    proof -
      from that set_run_subset [OF m] have "x \<in> set (s # rs)" by blast
      then have "rec_before r x" by (rule before)
      moreover from runs_one_vertex [OF m that] R(3) True
      have "rec_vertex x = rec_vertex r" by simp
      ultimately show ?thesis by (simp add: rec_before_def)
    qed
    from "3.prems"(2) have "run = r # run' \<or> run \<in> set R"
      unfolding R(2) by simp
    then show ?thesis
    proof
      assume run: "run = r # run'"
      from ih [OF m] lt show ?thesis unfolding run by simp
    next
      assume "run \<in> set R"
      then have "run \<in> set (runs (s # rs))" unfolding R(1) by simp
      then show ?thesis by (rule ih)
    qed
  next
    case False
    from "3.prems"(2) have "run = [r] \<or> run \<in> set (runs (s # rs))"
      unfolding runs_split [OF False] by simp
    then show ?thesis
    proof
      assume "run = [r]"
      then show ?thesis by simp
    next
      assume "run \<in> set (runs (s # rs))"
      from "3.IH"(1) [OF False sorted this] show ?thesis .
    qed
  qed
qed

lemma runs_vertices_ascending:
  "sorted_wrt rec_before rs \<Longrightarrow>
     sorted_wrt (<) (map (\<lambda>run. rec_vertex (hd run)) (runs rs))"
proof (induction rs rule: runs.induct)
  case 1
  then show ?case by simp
next
  case (2 r)
  then show ?case by simp
next
  case (3 r s rs)
  note sorted = sorted_wrt_ConsD(1) [OF "3.prems"(1)]
  note before = sorted_wrt_ConsD(2) [OF "3.prems"(1)]
  show ?case
  proof (cases "rec_vertex r = rec_vertex s")
    case True
    then obtain run' R where R: "runs (s # rs) = run' # R"
      "runs (r # s # rs) = (r # run') # R" "hd run' = s"
      by (rule runs_join)
    from "3.IH"(2) [OF _ sorted] True
    have "sorted_wrt (<) (map (\<lambda>run. rec_vertex (hd run)) (run' # R))"
      unfolding R(1) by simp
    then show ?thesis unfolding R(2) using R(3) True by simp
  next
    case False
    have "rec_vertex r < rec_vertex (hd run)" if "run \<in> set (runs (s # rs))" for run
    proof -
      from that have "run \<noteq> []" using runs_no_empty_run [of "s # rs"] by auto
      then have "hd run \<in> set run" by simp
      with set_run_subset [OF that] have h: "hd run \<in> set (s # rs)" by blast
      have "rec_vertex s \<le> rec_vertex (hd run)"
      proof (cases "hd run = s")
        case True
        then show ?thesis by simp
      next
        case False
        with h have "hd run \<in> set rs" by simp
        with sorted_wrt_ConsD(2) [OF sorted] have "rec_before s (hd run)" by blast
        then show ?thesis by (auto simp: rec_before_def)
      qed
      moreover have "rec_before r s" by (rule before) simp
      then have "rec_vertex r < rec_vertex s"
        using False by (simp add: rec_before_def)
      ultimately show ?thesis by simp
    qed
    with "3.IH"(1) [OF False sorted] show ?thesis
      unfolding runs_split [OF False] by simp
  qed
qed

lemma remdups_block:
  "xs \<noteq> [] \<Longrightarrow> set xs \<subseteq> {v} \<Longrightarrow> v \<notin> set ys \<Longrightarrow> remdups (xs @ ys) = v # remdups ys"
proof (induction xs)
  case Nil
  then show ?case by simp
next
  case (Cons x xs)
  from Cons.prems(2) have x: "x = v" and sub: "set xs \<subseteq> {v}" by auto
  show ?case
  proof (cases "xs = []")
    case True
    with Cons.prems(3) x show ?thesis by simp
  next
    case False
    then obtain y where "y \<in> set xs" by (cases xs) auto
    with sub have "v \<in> set xs" by auto
    with Cons.IH [OF False sub Cons.prems(3)] x show ?thesis by simp
  qed
qed

lemma blocks_grouped:
  assumes "[] \<notin> set R"
    and "\<And>run q. run \<in> set R \<Longrightarrow> q \<in> set run \<Longrightarrow> f q = f (hd run)"
    and "distinct (map (\<lambda>run. f (hd run)) R)"
  shows "map (\<lambda>v. filter (\<lambda>r. f r = v) (concat R)) (remdups (map f (concat R))) = R"
  using assms
proof (induction R)
  case Nil
  then show ?case by simp
next
  case (Cons run R)
  let ?v = "f (hd run)"
  from Cons.prems(1) have ne: "run \<noteq> []" and ne': "[] \<notin> set R"
    by auto
  have same: "f q = ?v" if "q \<in> set run" for q
    using Cons.prems(2) [of run q] that by simp
  from Cons.prems(3) have other: "?v \<notin> (\<lambda>run. f (hd run)) ` set R"
    and dist: "distinct (map (\<lambda>run. f (hd run)) R)"
    by simp_all
  have away: "f q \<noteq> ?v" if "q \<in> set (concat R)" for q
  proof
    assume eq: "f q = ?v"
    from that obtain run' where r: "run' \<in> set R" "q \<in> set run'" by auto
    from Cons.prems(2) [of run' q] r have "f q = f (hd run')" by simp
    with eq have "?v = f (hd run')" by simp
    with r(1) have "?v \<in> (\<lambda>run. f (hd run)) ` set R" by (rule image_eqI [rotated])
    with other show False by contradiction
  qed
  have ih: "map (\<lambda>v. filter (\<lambda>r. f r = v) (concat R)) (remdups (map f (concat R))) = R"
  proof (rule Cons.IH [OF ne' _ dist])
    fix run' q assume "run' \<in> set R" "q \<in> set run'"
    then show "f q = f (hd run')" using Cons.prems(2) [of run' q] by simp
  qed
  have 1: "remdups (map f (concat (run # R))) = ?v # remdups (map f (concat R))"
  proof -
    have a: "map f run \<noteq> []" using ne by simp
    have b: "set (map f run) \<subseteq> {?v}" using same by auto
    have c: "?v \<notin> set (map f (concat R))"
    proof
      assume "?v \<in> set (map f (concat R))"
      then have "?v \<in> f ` set (concat R)" by (simp only: set_map)
      then obtain q where "q \<in> set (concat R)" "?v = f q" by (rule imageE)
      with away [of q] show False by simp
    qed
    have "remdups (map f run @ map f (concat R)) = ?v # remdups (map f (concat R))"
      by (rule remdups_block [OF a b c])
    then show ?thesis by simp
  qed
  have 2: "filter (\<lambda>r. f r = ?v) (concat (run # R)) = run"
  proof -
    have "filter (\<lambda>r. f r = ?v) run = run" using same by (simp add: filter_id_conv)
    moreover have "filter (\<lambda>r. f r = ?v) (concat R) = []"
      using away by (simp only: filter_empty_conv) blast
    ultimately show ?thesis by (simp only: concat.simps filter_append append_Nil2)
  qed
  have 3: "filter (\<lambda>r. f r = v) (concat (run # R)) = filter (\<lambda>r. f r = v) (concat R)"
    if "v \<in> set (remdups (map f (concat R)))" for v
  proof -
    from that obtain q where "q \<in> set (concat R)" "v = f q" by auto
    with away [of q] have "v \<noteq> ?v" by simp
    with same have "filter (\<lambda>r. f r = v) run = []"
      by (simp only: filter_empty_conv) blast
    then show ?thesis by (simp only: concat.simps filter_append append_Nil)
  qed
  have "map (\<lambda>v. filter (\<lambda>r. f r = v) (concat (run # R))) (remdups (map f (concat R)))
      = map (\<lambda>v. filter (\<lambda>r. f r = v) (concat R)) (remdups (map f (concat R)))"
    by (rule map_cong [OF refl]) (rule 3)
  with ih 1 2 show ?case by (simp only: list.map)
qed

lemma runs_vertex_runs:
  assumes "sorted_wrt rec_before rs"
  shows "runs rs = vertex_runs rs"
proof -
  have d: "distinct (map (\<lambda>run. rec_vertex (hd run)) (runs rs))"
    using runs_vertices_ascending [OF assms] by (simp only: strict_sorted_iff)
  have "map (\<lambda>v. filter (\<lambda>r. rec_vertex r = v) (concat (runs rs)))
          (remdups (map rec_vertex (concat (runs rs)))) = runs rs"
    by (rule blocks_grouped [OF runs_no_empty_run runs_one_vertex d])
  then show ?thesis
    unfolding vertex_runs_def concat_runs by simp
qed

lemma is_range_run_flush [simp]: "is_range (run_flush p a run)"
  by (simp add: run_flush_def flush_def)

lemma is_range_run_command [simp]: "is_range (run_command p run)"
  by (simp add: run_command_def)

lemma range_commands_import:
  assumes "list_all is_range cmds"
  shows "range_commands (binding_effects d wl ro @ [Select ns, SetSize n] @ cmds @ [SetAttrNw nm v])
     = cmds"
  using assms
  by (simp add: range_commands_def binding_effects_def list_all_iff)

lemma no_error_import:
  assumes "list_all is_range cmds"
  shows "list_all (\<lambda>e. \<not> is_error e)
     (binding_effects d wl ro @ [Select ns, SetSize n] @ cmds @ [SetAttrNw nm v])"
proof -
  have "\<not> is_error e" if "is_range e" for e
    using that by (cases e) simp_all
  with assms show ?thesis
    by (auto simp: binding_effects_def list_all_iff)
qed

lemma run_flush_runs_sorted:
  assumes "sorted_wrt rec_before recs" and "list_all (\<lambda>r. 0 \<le> rec_infl r) recs"
  shows "map (run_flush p acc0) (runs recs) = map (run_command p) (runs recs)"
proof (rule map_cong [OF refl])
  fix run assume run: "run \<in> set (runs recs)"
  then have ne: "run \<noteq> []" using runs_no_empty_run [of recs] by auto
  then have h: "hd run \<in> set run" and l: "last run \<in> set run" by simp_all
  from set_run_subset [OF run] h have "hd run \<in> set recs" by blast
  with assms(2) have "0 \<le> rec_infl (hd run)" by (simp add: list_all_iff)
  then have a: "rec_infl (hd run) \<noteq> - 1" by simp
  have b: "rec_vertex (last run) = rec_vertex (hd run)"
    by (rule runs_one_vertex [OF run l])
  show "run_flush p acc0 run = run_command p run"
    by (rule run_flush_sorted [OF ne runs_infl_sorted [OF assms(1) run] a b])
qed

subsection \<open>Lines that are read like records\<close>

lemma readableE:
  assumes "readable p l"
  obtains v c j w where "eval p l = Some v" and "subscript v 0 = Some c"
    and "subscript v 2 = Some (PInt j)" and "subscript v 3 = Some w"
  using assms by (auto simp: readable_def is_int_iff split: option.splits)

lemma readable_record: "eval p l = Some (rec_val r) \<Longrightarrow> readable p l"
  by (simp add: readable_def)

lemma absorb_readable:
  assumes "int_bounds a" and "subscript v 2 = Some (PInt j)" and "subscript v 3 = Some w"
  shows "\<exists>b. absorb p a v = Some b \<and> int_bounds b"
proof -
  from enter_range_int [OF assms(1), of j] obtain b
    where b: "enter_range a (PInt j) = Some b" "int_bounds b" by blast
  with assms(2,3)
  have "absorb p a v = Some (b\<lparr>weightString := weightString b @ str_val p w @ '' '',
      setCount := setCount b + 1\<rparr>)"
    by (simp add: absorb_def)
  moreover from b(2)
  have "int_bounds (b\<lparr>weightString := weightString b @ str_val p w @ '' '',
      setCount := setCount b + 1\<rparr>)"
    by (simp add: int_bounds_def)
  ultimately show ?thesis by blast
qed

lemma is_range_flush [simp]: "is_range (flush a c)"
  by (simp add: flush_def)

lemma apply_loop_readable:
  assumes "\<And>i. 3 \<le> i \<Longrightarrow> i < length wl - 1 \<Longrightarrow> readable p (wl ! i)"
    and "set ks \<subseteq> {3..<length wl - 1}"
    and "int_bounds a"
  shows "snd (apply_loop p wl ks a) \<and> list_all is_range (fst (apply_loop p wl ks a))"
  using assms(2,3)
proof (induction ks arbitrary: a)
  case Nil
  show ?case by simp
next
  case (Cons k ks)
  have k: "3 \<le> k" "k < length wl - 1" using Cons.prems(1) by simp_all
  have ks: "set ks \<subseteq> {3..<length wl - 1}"
    using Cons.prems(1) by simp
  note ih = Cons.IH [OF ks]
  from assms(1) [OF k] obtain v c j w where v: "eval p (wl ! k) = Some v"
    "subscript v 0 = Some c" "subscript v 2 = Some (PInt j)" "subscript v 3 = Some w"
    by (rule readableE)
  define a1 where "a1 = (if k < length wl - 2 then a else a\<lparr>writeData := 1\<rparr>)"
  have "int_bounds a1" using Cons.prems(2) by (simp add: a1_def)
  from absorb_readable [OF this v(3,4), of p] obtain b
    where b: "absorb p a1 v = Some b" "int_bounds b" by blast
  have nx: "\<exists>v' c'. (if k < length wl - 2 then eval p (wl ! (k + 1)) else Some v) = Some v'
      \<and> subscript v' 0 = Some c'"
  proof (cases "k < length wl - 2")
    case True
    with k have "3 \<le> Suc k" "Suc k < length wl - 1" by simp_all
    from assms(1) [OF this] obtain v' c' where "eval p (wl ! Suc k) = Some v'"
      "subscript v' 0 = Some c'"
      by (rule readableE)
    with True show ?thesis by simp
  next
    case False
    with v(2) show ?thesis by simp
  qed
  then obtain v' c' where n: "(if k < length wl - 2 then eval p (wl ! (k + 1)) else Some v)
      = Some v'" "subscript v' 0 = Some c'"
    by blast
  define a3 where "a3 = (if \<not> py_eq c c' then b\<lparr>writeData := 1\<rparr> else b)"
  have i3: "int_bounds a3" using b(2) by (simp add: a3_def)
  have st: "apply_loop p wl (k # ks) a =
      (if writeData a3 = 1
       then (flush a3 c # fst (apply_loop p wl ks acc0), snd (apply_loop p wl ks acc0))
       else apply_loop p wl ks a3)"
    using v(1,2) n b(1) by (simp add: a1_def a3_def Let_def)
  show ?case
    unfolding st using ih [OF int_bounds_acc0] ih [OF i3] by simp
qed

lemma readWeights_readable:
  assumes rf: "read_file d fileName = Some weightData"
    and sel: "select_ok d (header_objects (split_on nl weightData ! 0) ro)"
    and nb: "\<not> already_bound d (header_shape (split_on nl weightData ! 0))"
    and ne: "record_lines (split_on nl weightData) \<noteq> []"
    and rd: "list_all (readable p) (record_lines (split_on nl weightData))"
    and sz: "line_vertex p (last (record_lines (split_on nl weightData))) = Some mx"
      "plus_one mx = Some n"
  shows "snd (readWeights p d fileName ro) = RInt 1"
    and "list_all (\<lambda>e. \<not> is_error e) (fst (readWeights p d fileName ro))"
proof -
  let ?wl = "split_on nl weightData"
  from ne have len: "3 \<le> length ?wl"
    using length_record_lines [of ?wl] by (cases "3 \<le> length ?wl") auto
  have r: "readable p (?wl ! i)" if "3 \<le> i" "i < length ?wl - 1" for i
  proof -
    from that have "?wl ! i \<in> set (record_lines ?wl)"
      unfolding record_lines_nth by (auto simp: image_iff intro: bexI [of _ i])
    with rd show ?thesis by (simp add: list_all_iff)
  qed
  from apply_loop_readable [of ?wl p "[3..<length ?wl - 1]" acc0, OF r]
  have lp: "snd (apply_loop p ?wl [3..<length ?wl - 1] acc0)"
    "list_all is_range (fst (apply_loop p ?wl [3..<length ?wl - 1] acc0))"
    by simp_all
  from sz(1) obtain w where w: "eval p (?wl ! (length ?wl - 2)) = Some w"
      "subscript w 0 = Some mx"
    unfolding last_record_line [OF ne, symmetric]
    by (auto simp: line_vertex_def split: option.splits)
  have e: "\<not> is_error e" if "is_range e" for e
    using that by (cases e) simp_all
  show "snd (readWeights p d fileName ro) = RInt 1"
    unfolding readWeights_checked [OF rf sel nb len] apply_weights_sized [OF w sz(2)]
    using lp(1) by (simp add: Let_def)
  show "list_all (\<lambda>e. \<not> is_error e) (fst (readWeights p d fileName ro))"
    unfolding readWeights_checked [OF rf sel nb len] apply_weights_sized [OF w sz(2)]
    using lp e by (auto simp: Let_def list_all_iff)
qed

subsection \<open>What the import replays\<close>

lemma import_replayed:
  assumes "read_file d fileName = Some weightData"
    and "select_ok d (header_objects (split_on nl weightData ! 0) ro)"
    and "\<not> already_bound d (header_shape (split_on nl weightData ! 0))"
    and "map (eval p) (record_lines (split_on nl weightData)) = map (\<lambda>r. Some (rec_val r)) recs"
    and "recs \<noteq> []"
  shows "readWeights p d fileName ro =
     (binding_effects d (split_on nl weightData) ro
        @ [Select [split_on nl weightData ! 1], SetSize (PInt (rec_vertex (last recs) + 1))]
        @ map (run_flush p acc0) (runs recs)
        @ [SetAttrNw (split_on nl weightData ! 1) (nw_attr d (split_on nl weightData ! 1))],
      RInt 1)"
  using readWeights_replay [OF assms] by (simp only: replay_acc0_runs)

lemma import_replayed_sorted:
  assumes "read_file d fileName = Some weightData"
    and "select_ok d (header_objects (split_on nl weightData ! 0) ro)"
    and "\<not> already_bound d (header_shape (split_on nl weightData ! 0))"
    and "map (eval p) (record_lines (split_on nl weightData)) = map (\<lambda>r. Some (rec_val r)) recs"
    and "recs \<noteq> []"
    and "sorted_wrt rec_before recs"
    and "list_all (\<lambda>r. 0 \<le> rec_infl r) recs"
  shows "readWeights p d fileName ro =
     (binding_effects d (split_on nl weightData) ro
        @ [Select [split_on nl weightData ! 1], SetSize (PInt (rec_vertex (last recs) + 1))]
        @ map (run_command p) (vertex_runs recs)
        @ [SetAttrNw (split_on nl weightData ! 1) (nw_attr d (split_on nl weightData ! 1))],
      RInt 1)"
proof -
  have "map (run_flush p acc0) (runs recs) = map (run_command p) (vertex_runs recs)"
    using run_flush_runs_sorted [OF assms(6,7)] by (simp only: runs_vertex_runs [OF assms(6)])
  with import_replayed [OF assms(1-5)] show ?thesis by (simp only:)
qed

lemma range_commands_apply_weights:
  assumes "apply_loop p wl [3..<length wl - 1] acc0 = ([], ok)"
  shows "range_commands (fst (apply_weights p d wl shape name)) = []"
  unfolding apply_weights_def Let_def assms
  by (simp add: range_commands_def split: option.split)

lemma import_no_records:
  assumes "read_file d fileName = Some weightData"
    and "record_lines (split_on nl weightData) = []"
  shows "range_commands (fst (readWeights p d fileName ro)) = []"
proof -
  note e = assms(2) [unfolded record_lines_nth map_is_Nil_conv]
  have l: "apply_loop p (split_on nl weightData) [3..<length (split_on nl weightData) - 1] acc0
      = ([], True)"
    unfolding e by simp
  show ?thesis
  proof (cases "select_ok d (header_objects (split_on nl weightData ! 0) ro)
      \<and> \<not> already_bound d (header_shape (split_on nl weightData ! 0))
      \<and> 3 \<le> length (split_on nl weightData)")
    case True
    then have c: "select_ok d (header_objects (split_on nl weightData ! 0) ro)"
      "\<not> already_bound d (header_shape (split_on nl weightData ! 0))"
      "3 \<le> length (split_on nl weightData)"
      by simp_all
    show ?thesis
      unfolding readWeights_checked [OF assms(1) c]
      using range_commands_apply_weights [OF l]
      by (simp add: range_commands_def)
  next
    case False
    with assms(1) show ?thesis
      by (auto simp: readWeights_def Let_def range_commands_def)
  qed
qed

text \<open>
  C2. For a file that passes the checks and whose record lines evaluate to records in
  ascending order, with influence indices that are not negative, the import sets exactly
  one range for each vertex that occurs, in the order of the vertices: the range of a vertex
  covers the influence indices from its first to its last record, with the printed weight
  of the record at the indices that have one and \<^verbatim>\<open>0\<close> at the indices in between. When
  there is a record at all, the import succeeds, and these ranges come after the creation of
  the skinCluster and before the normalization is restored.
\<close>

theorem import_one_range_per_vertex:
  assumes "read_file d fileName = Some weightData"
    and "select_ok d (header_objects (split_on nl weightData ! 0) ro)"
    and "\<not> already_bound d (header_shape (split_on nl weightData ! 0))"
    and "map (eval p) (record_lines (split_on nl weightData)) = map (\<lambda>r. Some (rec_val r)) recs"
    and "sorted_wrt rec_before recs"
    and "list_all (\<lambda>r. 0 \<le> rec_infl r) recs"
  shows "range_commands (fst (readWeights p d fileName ro))
        = map (run_command p) (vertex_runs recs)
    \<and> length (range_commands (fst (readWeights p d fileName ro)))
        = card (rec_vertex ` set recs)
    \<and> (recs \<noteq> [] \<longrightarrow>
         readWeights p d fileName ro =
           (binding_effects d (split_on nl weightData) ro
              @ [Select [split_on nl weightData ! 1],
                 SetSize (PInt (rec_vertex (last recs) + 1))]
              @ map (run_command p) (vertex_runs recs)
              @ [SetAttrNw (split_on nl weightData ! 1)
                   (nw_attr d (split_on nl weightData ! 1))],
            RInt 1))"
proof -
  have n: "length (vertex_runs recs) = card (rec_vertex ` set recs)"
    by (simp add: vertex_runs_def length_remdups_card_conv)
  show ?thesis
  proof (cases "recs = []")
    case True
    with assms(4) have "record_lines (split_on nl weightData) = []" by simp
    from import_no_records [OF assms(1) this] True show ?thesis
      by (simp add: vertex_runs_def)
  next
    case False
    note r = import_replayed_sorted [OF assms(1-4) False assms(5,6)]
    have "range_commands (fst (readWeights p d fileName ro))
        = map (run_command p) (vertex_runs recs)"
      unfolding r fst_conv by (rule range_commands_import) (simp add: list_all_iff)
    with r n show ?thesis by simp
  qed
qed

text \<open>
  C5, as the code has it. The import does not look at the order of the records. For every
  file whose record lines evaluate to records, in whatever order the records are, and that
  passes the checks, the import displays no error and returns 1; it sets one range for each
  run of adjacent records of one vertex, accumulated by the loop as it is.
\<close>

theorem import_accepts_any_record_order:
  assumes "read_file d fileName = Some weightData"
    and "select_ok d (header_objects (split_on nl weightData ! 0) ro)"
    and "\<not> already_bound d (header_shape (split_on nl weightData ! 0))"
    and "map (eval p) (record_lines (split_on nl weightData)) = map (\<lambda>r. Some (rec_val r)) recs"
    and "recs \<noteq> []"
  shows "snd (readWeights p d fileName ro) = RInt 1
    \<and> list_all (\<lambda>e. \<not> is_error e) (fst (readWeights p d fileName ro))
    \<and> range_commands (fst (readWeights p d fileName ro)) = map (run_flush p acc0) (runs recs)"
proof -
  note r = import_replayed [OF assms]
  have a: "list_all is_range (map (run_flush p acc0) (runs recs))"
    by (simp add: list_all_iff)
  show ?thesis
    unfolding r fst_conv snd_conv
    using range_commands_import [OF a] no_error_import [OF a] by simp
qed

text \<open>
  C7, as the code has it. The import does not check the record lines beforehand: it sets
  each range as soon as the range is complete, and a line stops it only where Python raises.
  Take a file that passes the checks and whose first \<open>m\<close> record lines evaluate to records,
  and the record line after them, whatever it is.

  First, when the line before the last gives a size, the effects of the import begin with
  the creation of the binding, the size, and the ranges of the runs of those records that a
  change of vertex closed.

  Second, when the line after them does not evaluate, or its value has no \<^verbatim>\<open>[0]\<close>, \<^verbatim>\<open>[2]\<close>
  or \<^verbatim>\<open>[3]\<close>, the import ends with the exception: after the pruning when the line before
  the last gives no \<^verbatim>\<open>[0]\<close>; after selecting the skinCluster when \<^verbatim>\<open>[0] + 1\<close> raises;
  otherwise after the size and the ranges of the runs closed before, and after the range of
  the run in progress too when the value of the line has a \<^verbatim>\<open>[0]\<close> that differs from the
  vertex of that run. No later range is set.

  Third, when every record line is read like a record, a record or not, and the line before
  the last gives a size, the import displays no error and returns 1.
\<close>

theorem malformed_line_leaves_earlier_ranges:
  assumes "read_file d fileName = Some weightData"
    and "select_ok d (header_objects (split_on nl weightData ! 0) ro)"
    and "\<not> already_bound d (header_shape (split_on nl weightData ! 0))"
    and "m < length (record_lines (split_on nl weightData))"
    and "map (eval p) (take m (record_lines (split_on nl weightData)))
           = map (\<lambda>r. Some (rec_val r)) pre"
  shows "(\<forall>n. list_size p (last (record_lines (split_on nl weightData))) = Some n \<longrightarrow>
            (\<exists>rest. fst (readWeights p d fileName ro) =
               binding_effects d (split_on nl weightData) ro
                 @ [Select [split_on nl weightData ! 1], SetSize n]
                 @ butlast (map (run_flush p acc0) (runs pre)) @ rest))
    \<and> (lacks_field p (record_lines (split_on nl weightData) ! m) \<longrightarrow>
          readWeights p d fileName ro =
            (case line_vertex p (last (record_lines (split_on nl weightData))) of
               None \<Rightarrow> (binding_effects d (split_on nl weightData) ro, Raised)
             | Some maxIndex \<Rightarrow>
                 (case plus_one maxIndex of
                    None \<Rightarrow>
                      (binding_effects d (split_on nl weightData) ro
                         @ [Select [split_on nl weightData ! 1]], Raised)
                  | Some n \<Rightarrow>
                      (binding_effects d (split_on nl weightData) ro
                         @ [Select [split_on nl weightData ! 1], SetSize n]
                         @ (case line_vertex p (record_lines (split_on nl weightData) ! m) of
                              None \<Rightarrow> butlast (map (run_flush p acc0) (runs pre))
                            | Some c \<Rightarrow>
                                if pre \<noteq> [] \<and> \<not> py_eq (PInt (rec_vertex (last pre))) c
                                then map (run_flush p acc0) (runs pre)
                                else butlast (map (run_flush p acc0) (runs pre))),
                       Raised))))
    \<and> (list_all (readable p) (record_lines (split_on nl weightData))
          \<and> list_size p (last (record_lines (split_on nl weightData))) \<noteq> None \<longrightarrow>
          snd (readWeights p d fileName ro) = RInt 1
          \<and> list_all (\<lambda>e. \<not> is_error e) (fst (readWeights p d fileName ro)))"
proof (intro conjI allI impI)
  let ?wl = "split_on nl weightData"
  from assms(4) have ne: "record_lines ?wl \<noteq> []" by auto
  then have len: "3 \<le> length ?wl"
    using length_record_lines [of ?wl] by (cases "3 \<le> length ?wl") auto
  have le: "m \<le> length (record_lines ?wl)" using assms(4) by simp
  {
    fix n assume "list_size p (last (record_lines ?wl)) = Some n"
    then obtain mx where sz: "line_vertex p (?wl ! (length ?wl - 2)) = Some mx"
        "plus_one mx = Some n"
      unfolding last_record_line [OF ne, symmetric]
      by (auto simp: list_size_def split: option.splits)
    from readWeights_prefix [OF assms(1-3) le assms(5) sz len]
    show "\<exists>rest. fst (readWeights p d fileName ro) =
        binding_effects d ?wl ro @ [Select [?wl ! 1], SetSize n]
          @ butlast (map (run_flush p acc0) (runs pre)) @ rest"
      by (simp only: replay_acc0_runs)
  }
  {
    assume "lacks_field p (record_lines ?wl ! m)"
    from readWeights_raise [OF assms this]
    show "readWeights p d fileName ro =
        (case line_vertex p (last (record_lines ?wl)) of
           None \<Rightarrow> (binding_effects d ?wl ro, Raised)
         | Some maxIndex \<Rightarrow>
             (case plus_one maxIndex of
                None \<Rightarrow> (binding_effects d ?wl ro @ [Select [?wl ! 1]], Raised)
              | Some n \<Rightarrow>
                  (binding_effects d ?wl ro @ [Select [?wl ! 1], SetSize n]
                     @ (case line_vertex p (record_lines ?wl ! m) of
                          None \<Rightarrow> butlast (map (run_flush p acc0) (runs pre))
                        | Some c \<Rightarrow>
                            if pre \<noteq> [] \<and> \<not> py_eq (PInt (rec_vertex (last pre))) c
                            then map (run_flush p acc0) (runs pre)
                            else butlast (map (run_flush p acc0) (runs pre))),
                   Raised)))"
      by (simp only: replay_acc0_runs)
  }
  {
    assume a: "list_all (readable p) (record_lines ?wl)
        \<and> list_size p (last (record_lines ?wl)) \<noteq> None"
    then obtain mx n where sz: "line_vertex p (last (record_lines ?wl)) = Some mx"
        "plus_one mx = Some n"
      by (auto simp: list_size_def split: option.splits)
    from a have rd: "list_all (readable p) (record_lines ?wl)" by simp
    show "snd (readWeights p d fileName ro) = RInt 1"
      by (rule readWeights_readable(1) [OF assms(1-3) ne rd sz])
    show "list_all (\<lambda>e. \<not> is_error e) (fst (readWeights p d fileName ro))"
      by (rule readWeights_readable(2) [OF assms(1-3) ne rd sz])
  }
qed

subsection \<open>The example files\<close>

lemma split_short_file:
  "split_on nl short_file =
     [''J1 J2 Mesh'', ''skinA'', ''-nw 1 -mi 4 -dr 4.0'',
      ''[0, 'J1', 0, 0.6]'', ''[1]'', ''[5, 'B', 1, 0.3]'', '''']"
  unfolding short_file_def by (rule split_join) (simp_all add: nl_def)

lemma split_sized_file:
  "split_on nl sized_file =
     [''J1 J2 Mesh'', ''skinA'', ''-nw 1 -mi 4 -dr 4.0'',
      ''[0, 'J1', 0, 0.6]'', ''[1, 'J2', 1, 1.0]'', ''[7]'', '''']"
  unfolding sized_file_def by (rule split_join) (simp_all add: nl_def)

lemma split_accepted_file:
  "split_on nl accepted_file =
     [''J1 J2 Mesh'', ''skinA'', ''-nw 1 -mi 4 -dr 4.0'',
      ''[0, 'J1', 0, 0.6]'', ''[1, 'J2', 1, 'x', 9]'', '''']"
  unfolding accepted_file_def by (rule split_join) (simp_all add: nl_def)

lemma read_more_files:
  "read_file demo_dest ''short.weights'' = Some short_file"
  "read_file demo_dest ''sized.weights'' = Some sized_file"
  "read_file demo_dest ''accepted.weights'' = Some accepted_file"
  by (simp_all add: demo_dest_def)

lemma demo_record_lines:
  "record_lines (split_on nl demo_file) =
     [''[0, 'J1', 0, 0.6]'', ''[0, 'J2', 1, 0.4]'', ''[1, 'J2', 1, 1.0]'']"
  "record_lines (split_on nl merge_file) =
     [''[5, 'A', 0, 0.2]'', ''[5, 'B', 1, 0.3]'', ''[5, 'D', 3, 0.5]'']"
  "record_lines (split_on nl unordered_file) =
     [''[1, 'J2', 1, 1.0]'', ''[0, 'J2', 1, 0.4]'', ''[0, 'J1', 0, 0.6]'']"
  "record_lines (split_on nl broken_file) =
     [''[0, 'J1', 0, 0.6]'', ''[1, 'J2', 1, 1.0]'', ''[5, 'A', 0'', ''[5, 'B', 1, 0.3]'']"
  "record_lines (split_on nl empty_file) = []"
  "record_lines (split_on nl short_file) =
     [''[0, 'J1', 0, 0.6]'', ''[1]'', ''[5, 'B', 1, 0.3]'']"
  "record_lines (split_on nl sized_file) =
     [''[0, 'J1', 0, 0.6]'', ''[1, 'J2', 1, 1.0]'', ''[7]'']"
  "record_lines (split_on nl accepted_file) =
     [''[0, 'J1', 0, 0.6]'', ''[1, 'J2', 1, 'x', 9]'']"
  by (simp_all add: record_lines_def split_demo_file split_merge_file split_unordered_file
      split_broken_file split_empty_file split_short_file split_sized_file
      split_accepted_file)

lemma demo_eval:
  "eval demo_py ''[0, 'J1', 0, 0.6]'' = Some (rec_val (0, ''J1'', 0, 3 / 5))"
  "eval demo_py ''[0, 'J2', 1, 0.4]'' = Some (rec_val (0, ''J2'', 1, 2 / 5))"
  "eval demo_py ''[1, 'J2', 1, 1.0]'' = Some (rec_val (1, ''J2'', 1, 1))"
  "eval demo_py ''[5, 'A', 0, 0.2]'' = Some (rec_val (5, ''A'', 0, 1 / 5))"
  "eval demo_py ''[5, 'B', 1, 0.3]'' = Some (rec_val (5, ''B'', 1, 3 / 10))"
  "eval demo_py ''[5, 'D', 3, 0.5]'' = Some (rec_val (5, ''D'', 3, 1 / 2))"
  "eval demo_py ''[5, 'A', 0'' = None"
  "eval demo_py ''-nw 1 -mi 4 -dr 4.0'' = None"
  "eval demo_py ''[1]'' = Some (PList [PInt 1])"
  "eval demo_py ''[7]'' = Some (PList [PInt 7])"
  "eval demo_py ''[1, 'J2', 1, 'x', 9]''
     = Some (PList [PInt 1, PStr ''J2'', PInt 1, PStr ''x'', PInt 9])"
  by (simp_all add: eval_demo_py demo_lines_def)

lemma demo_line_vertex:
  "line_vertex demo_py ''[5, 'B', 1, 0.3]'' = Some (PInt 5)"
  "line_vertex demo_py ''[5, 'A', 0'' = None"
  "line_vertex demo_py ''[1]'' = Some (PInt 1)"
  "line_vertex demo_py ''[7]'' = Some (PInt 7)"
  "line_vertex demo_py ''[1, 'J2', 1, 'x', 9]'' = Some (PInt 1)"
  by (simp_all add: line_vertex_def demo_eval)

lemma demo_lacks_field:
  "lacks_field demo_py ''[5, 'A', 0''"
  "lacks_field demo_py ''[1]''"
  "lacks_field demo_py ''[7]''"
  by (simp_all add: lacks_field_def demo_eval)

lemma demo_readable:
  "readable demo_py ''[0, 'J1', 0, 0.6]''"
  "readable demo_py ''[1, 'J2', 1, 'x', 9]''"
  by (simp_all add: readable_def demo_eval rec_val_tuple numeral_2_eq_2 numeral_3_eq_3)

lemma demo_headers:
  "header_objects ''J1 J2 Mesh'' 0 = [''J1'', ''J2'', ''Mesh'']"
  "header_shape ''J1 J2 Mesh'' = ''Mesh''"
  "header_objects ''A B C D shapeX'' 0 = [''A'', ''B'', ''C'', ''D'', ''shapeX'']"
  "header_shape ''A B C D shapeX'' = ''shapeX''"
  by (simp_all add: header_objects_def header_shape_def sp_def)

lemma demo_binding_effects:
  "binding_effects demo_dest (''J1 J2 Mesh'' # ''skinA'' # ''-nw 1 -mi 4 -dr 4.0'' # ls) 0 =
     [Select [''J1'', ''J2'', ''Mesh''],
      NewSkinCluster ''-tsb -bm 0 -nw 1 -mi 4 -dr 4.0-omi true -rui false'',
      Rename ''skinCluster1'' ''skinA'', SetAttrNw ''skinA'' 0, PruneWeights ''skinA'' ''Mesh'']"
  "binding_effects demo_dest (''A B C D shapeX'' # ''skinB'' # ''-nw 1 -mi 4 -dr 4.0'' # ls) 0 =
     [Select [''A'', ''B'', ''C'', ''D'', ''shapeX''],
      NewSkinCluster ''-tsb -bm 0 -nw 1 -mi 4 -dr 4.0-omi true -rui false'',
      Rename ''skinCluster1'' ''skinB'', SetAttrNw ''skinB'' 0,
      PruneWeights ''skinB'' ''shapeX'']"
  by (simp_all add: binding_effects_def demo_headers bind_command_def demo_dest_fields)

lemma demo_checks:
  "select_ok demo_dest (header_objects (split_on nl demo_file ! 0) 0)"
  "\<not> already_bound demo_dest (header_shape (split_on nl demo_file ! 0))"
  "select_ok demo_dest (header_objects (split_on nl merge_file ! 0) 0)"
  "\<not> already_bound demo_dest (header_shape (split_on nl merge_file ! 0))"
  "select_ok demo_dest (header_objects (split_on nl unordered_file ! 0) 0)"
  "\<not> already_bound demo_dest (header_shape (split_on nl unordered_file ! 0))"
  "select_ok demo_dest (header_objects (split_on nl broken_file ! 0) 0)"
  "\<not> already_bound demo_dest (header_shape (split_on nl broken_file ! 0))"
  "select_ok demo_dest (header_objects (split_on nl empty_file ! 0) 0)"
  "\<not> already_bound demo_dest (header_shape (split_on nl empty_file ! 0))"
  by (simp_all add: split_demo_file split_merge_file split_unordered_file split_broken_file
      split_empty_file demo_headers demo_dest_fields already_bound_def)

lemma more_checks:
  "select_ok demo_dest (header_objects (split_on nl short_file ! 0) 0)"
  "\<not> already_bound demo_dest (header_shape (split_on nl short_file ! 0))"
  "select_ok demo_dest (header_objects (split_on nl sized_file ! 0) 0)"
  "\<not> already_bound demo_dest (header_shape (split_on nl sized_file ! 0))"
  "select_ok demo_dest (header_objects (split_on nl accepted_file ! 0) 0)"
  "\<not> already_bound demo_dest (header_shape (split_on nl accepted_file ! 0))"
  by (simp_all add: split_short_file split_sized_file split_accepted_file demo_headers
      demo_dest_fields already_bound_def)

lemma demo_str_val:
  "str_float demo_py (3 / 5) = ''0.6''" "str_float demo_py (2 / 5) = ''0.4''"
  "str_float demo_py 1 = ''1.0''" "str_float demo_py (1 / 5) = ''0.2''"
  "str_float demo_py (3 / 10) = ''0.3''" "str_float demo_py (1 / 2) = ''0.5''"
  by (simp_all add: demo_py_fields demo_str_float_def)

lemma run_flush_single:
  "run_flush p acc0 [r] =
     SetWeights 1 (PInt (rec_vertex r)) (PInt (rec_infl r)) (PInt (rec_infl r))
       (str_float p (rec_weight r) @ '' '')"
  by (simp add: run_flush_def flush_def absorb_acc0_fields)

lemma merge_ranges:
  "map (run_command demo_py)
     (vertex_runs [(5, ''A'', 0, 1 / 5), (5, ''B'', 1, 3 / 10), (5, ''D'', 3, 1 / 2)])
     = [SetWeights 4 (PInt 5) (PInt 0) (PInt 3) ''0.2 0.3 0 0.5 '']"
  by (simp add: vertex_runs_def run_command_def upto.simps demo_str_val
      rec_vertex_def rec_infl_def rec_weight_def)

lemma unordered_ranges:
  "map (run_flush demo_py acc0)
     (runs [(1, ''J2'', 1, 1), (0, ''J2'', 1, 2 / 5), (0, ''J1'', 0, 3 / 5)])
     = [SetWeights 1 (PInt 1) (PInt 1) (PInt 1) ''1.0 '',
        SetWeights 2 (PInt 0) (PInt 1) (PInt 0) ''0.4 0.6 '']"
proof -
  have r: "runs [(1, ''J2'', 1, 1), (0, ''J2'', 1, 2 / 5), (0, ''J1'', 0, 3 / 5)]
      = [[(1, ''J2'', 1, 1)], [(0, ''J2'', 1, 2 / 5), (0, ''J1'', 0, 3 / 5)]]"
    by (simp add: rec_vertex_def)
  have a: "absorb_rec demo_py acc0 (0, ''J2'', 1, 2 / 5)
      = \<lparr>weightString = ''0.4 '', inflStart = PInt 1, inflEnd = PInt 1, setCount = 1,
         writeData = 0\<rparr>"
    by (simp add: absorb_rec_def absorb_def enter_range_def acc0_def rec_val_tuple
        demo_py_fields demo_str_float_def numeral_2_eq_2 numeral_3_eq_3)
  have b: "absorb_rec demo_py
       \<lparr>weightString = ''0.4 '', inflStart = PInt 1, inflEnd = PInt 1, setCount = 1,
         writeData = 0\<rparr> (0, ''J1'', 0, 3 / 5)
      = \<lparr>weightString = ''0.4 0.6 '', inflStart = PInt 1, inflEnd = PInt 0, setCount = 2,
         writeData = 0\<rparr>"
    by (simp add: absorb_rec_def absorb_def enter_range_def rec_val_tuple
        demo_py_fields demo_str_float_def numeral_2_eq_2 numeral_3_eq_3)
  show ?thesis
    unfolding r by (simp add: demo_str_val run_flush_def a b flush_def absorb_acc0_fields
        rec_vertex_def rec_infl_def rec_weight_def)
qed

lemma broken_ranges:
  "map (run_flush demo_py acc0) (runs [(0, ''J1'', 0, 3 / 5), (1, ''J2'', 1, 1)])
     = [SetWeights 1 (PInt 0) (PInt 0) (PInt 0) ''0.6 '',
        SetWeights 1 (PInt 1) (PInt 1) (PInt 1) ''1.0 '']"
  "map (run_flush demo_py acc0) (runs [(0, ''J1'', 0, 3 / 5)])
     = [SetWeights 1 (PInt 0) (PInt 0) (PInt 0) ''0.6 '']"
  by (simp_all add: run_flush_single demo_str_val rec_vertex_def rec_infl_def rec_weight_def)

theorem import_one_range_per_vertex_witness:
  "read_file demo_dest ''merge.weights'' = Some merge_file
   \<and> map (eval demo_py) (record_lines (split_on nl merge_file)) =
       map (\<lambda>r. Some (rec_val r))
         [(5, ''A'', 0, 1 / 5), (5, ''B'', 1, 3 / 10), (5, ''D'', 3, 1 / 2)]
   \<and> sorted_wrt rec_before [(5, ''A'', 0, 1 / 5), (5, ''B'', 1, 3 / 10), (5, ''D'', 3, 1 / 2)]
   \<and> readWeights demo_py demo_dest ''merge.weights'' 0 =
       ([Select [''A'', ''B'', ''C'', ''D'', ''shapeX''],
         NewSkinCluster ''-tsb -bm 0 -nw 1 -mi 4 -dr 4.0-omi true -rui false'',
         Rename ''skinCluster1'' ''skinB'', SetAttrNw ''skinB'' 0,
         PruneWeights ''skinB'' ''shapeX'', Select [''skinB''], SetSize (PInt 6),
         SetWeights 4 (PInt 5) (PInt 0) (PInt 3) ''0.2 0.3 0 0.5 '',
         SetAttrNw ''skinB'' 1],
        RInt 1)
   \<and> range_commands (fst (readWeights demo_py demo_dest ''merge.weights'' 0)) =
       [SetWeights 4 (PInt 5) (PInt 0) (PInt 3) ''0.2 0.3 0 0.5 '']"
proof -
  let ?recs = "[(5, ''A'', 0, 1 / 5), (5, ''B'', 1, 3 / 10), (5, ''D'', 3, 1 / 2)]"
  have e: "map (eval demo_py) (record_lines (split_on nl merge_file))
      = map (\<lambda>r. Some (rec_val r)) ?recs"
    by (simp add: demo_record_lines demo_eval)
  have n: "?recs \<noteq> []" by simp
  have s: "sorted_wrt rec_before ?recs"
    by (simp add: rec_before_def rec_vertex_def rec_infl_def)
  have a: "list_all (\<lambda>r. 0 \<le> rec_infl r) ?recs" by (simp add: rec_infl_def)
  note t = import_one_range_per_vertex [OF read_demo_dest(2) demo_checks(3,4) e s a]
  have r: "readWeights demo_py demo_dest ''merge.weights'' 0 =
       ([Select [''A'', ''B'', ''C'', ''D'', ''shapeX''],
         NewSkinCluster ''-tsb -bm 0 -nw 1 -mi 4 -dr 4.0-omi true -rui false'',
         Rename ''skinCluster1'' ''skinB'', SetAttrNw ''skinB'' 0,
         PruneWeights ''skinB'' ''shapeX'', Select [''skinB''], SetSize (PInt 6),
         SetWeights 4 (PInt 5) (PInt 0) (PInt 3) ''0.2 0.3 0 0.5 '',
         SetAttrNw ''skinB'' 1],
        RInt 1)"
    using t [THEN conjunct2, THEN conjunct2, THEN mp, OF n]
    unfolding merge_ranges split_merge_file demo_binding_effects
    by (simp add: demo_dest_fields rec_vertex_def)
  have c: "range_commands (fst (readWeights demo_py demo_dest ''merge.weights'' 0)) =
       [SetWeights 4 (PInt 5) (PInt 0) (PInt 3) ''0.2 0.3 0 0.5 '']"
    using t [THEN conjunct1] unfolding merge_ranges .
  from read_demo_dest(2) e s r c show ?thesis by blast
qed

theorem import_accepts_any_record_order_witness:
  "read_file demo_dest ''unordered.weights'' = Some unordered_file
   \<and> map (eval demo_py) (record_lines (split_on nl unordered_file)) =
       map (\<lambda>r. Some (rec_val r))
         [(1, ''J2'', 1, 1), (0, ''J2'', 1, 2 / 5), (0, ''J1'', 0, 3 / 5)]
   \<and> snd (readWeights demo_py demo_dest ''unordered.weights'' 0) = RInt 1
   \<and> range_commands (fst (readWeights demo_py demo_dest ''unordered.weights'' 0)) =
       [SetWeights 1 (PInt 1) (PInt 1) (PInt 1) ''1.0 '',
        SetWeights 2 (PInt 0) (PInt 1) (PInt 0) ''0.4 0.6 '']"
proof -
  let ?recs = "[(1, ''J2'', 1, 1), (0, ''J2'', 1, 2 / 5), (0, ''J1'', 0, 3 / 5)]"
  have e: "map (eval demo_py) (record_lines (split_on nl unordered_file))
      = map (\<lambda>r. Some (rec_val r)) ?recs"
    by (simp add: demo_record_lines demo_eval)
  have n: "?recs \<noteq> []" by simp
  from import_accepts_any_record_order [OF read_demo_dest(3) demo_checks(5,6) e n]
  have "snd (readWeights demo_py demo_dest ''unordered.weights'' 0) = RInt 1
    \<and> range_commands (fst (readWeights demo_py demo_dest ''unordered.weights'' 0)) =
       [SetWeights 1 (PInt 1) (PInt 1) (PInt 1) ''1.0 '',
        SetWeights 2 (PInt 0) (PInt 1) (PInt 0) ''0.4 0.6 '']"
    unfolding unordered_ranges by blast
  with read_demo_dest(3) e show ?thesis by blast
qed

text \<open>
  The records of this file descend: vertex 1 comes before vertex 0, and influence 1 of
  vertex 0 before influence 0. The import returns 1 all the same, after setting a range for
  vertex 1 and the range \<^verbatim>\<open>1:0\<close> for vertex 0.
\<close>

theorem unordered_records_counterexample:
  "map (eval demo_py) (record_lines (split_on nl unordered_file)) =
       map (\<lambda>r. Some (rec_val r))
         [(1, ''J2'', 1, 1), (0, ''J2'', 1, 2 / 5), (0, ''J1'', 0, 3 / 5)]
   \<and> \<not> sorted_wrt rec_before [(1, ''J2'', 1, 1), (0, ''J2'', 1, 2 / 5), (0, ''J1'', 0, 3 / 5)]
   \<and> readWeights demo_py demo_dest ''unordered.weights'' 0 =
       ([Select [''J1'', ''J2'', ''Mesh''],
         NewSkinCluster ''-tsb -bm 0 -nw 1 -mi 4 -dr 4.0-omi true -rui false'',
         Rename ''skinCluster1'' ''skinA'', SetAttrNw ''skinA'' 0,
         PruneWeights ''skinA'' ''Mesh'', Select [''skinA''], SetSize (PInt 1),
         SetWeights 1 (PInt 1) (PInt 1) (PInt 1) ''1.0 '',
         SetWeights 2 (PInt 0) (PInt 1) (PInt 0) ''0.4 0.6 '',
         SetAttrNw ''skinA'' 1],
        RInt 1)"
proof -
  let ?recs = "[(1, ''J2'', 1, 1), (0, ''J2'', 1, 2 / 5), (0, ''J1'', 0, 3 / 5)]"
  have e: "map (eval demo_py) (record_lines (split_on nl unordered_file))
      = map (\<lambda>r. Some (rec_val r)) ?recs"
    by (simp add: demo_record_lines demo_eval)
  have n: "?recs \<noteq> []" by simp
  have s: "\<not> sorted_wrt rec_before ?recs"
    by (simp add: rec_before_def rec_vertex_def rec_infl_def)
  from import_replayed [OF read_demo_dest(3) demo_checks(5,6) e n]
  have "readWeights demo_py demo_dest ''unordered.weights'' 0 =
       ([Select [''J1'', ''J2'', ''Mesh''],
         NewSkinCluster ''-tsb -bm 0 -nw 1 -mi 4 -dr 4.0-omi true -rui false'',
         Rename ''skinCluster1'' ''skinA'', SetAttrNw ''skinA'' 0,
         PruneWeights ''skinA'' ''Mesh'', Select [''skinA''], SetSize (PInt 1),
         SetWeights 1 (PInt 1) (PInt 1) (PInt 1) ''1.0 '',
         SetWeights 2 (PInt 0) (PInt 1) (PInt 0) ''0.4 0.6 '',
         SetAttrNw ''skinA'' 1],
        RInt 1)"
    unfolding unordered_ranges split_unordered_file demo_binding_effects
    by (simp add: demo_dest_fields rec_vertex_def)
  with e s show ?thesis by blast
qed

theorem malformed_line_leaves_earlier_ranges_witness:
  "read_file demo_dest ''short.weights'' = Some short_file
   \<and> (1::nat) < length (record_lines (split_on nl short_file))
   \<and> map (eval demo_py) (take 1 (record_lines (split_on nl short_file))) =
       map (\<lambda>r. Some (rec_val r)) [(0, ''J1'', 0, 3 / 5)]
   \<and> record_lines (split_on nl short_file) ! 1 = ''[1]''
   \<and> eval demo_py ''[1]'' = Some (PList [PInt 1])
   \<and> lacks_field demo_py ''[1]''
   \<and> readWeights demo_py demo_dest ''short.weights'' 0 =
       ([Select [''J1'', ''J2'', ''Mesh''],
         NewSkinCluster ''-tsb -bm 0 -nw 1 -mi 4 -dr 4.0-omi true -rui false'',
         Rename ''skinCluster1'' ''skinA'', SetAttrNw ''skinA'' 0,
         PruneWeights ''skinA'' ''Mesh'', Select [''skinA''], SetSize (PInt 6),
         SetWeights 1 (PInt 0) (PInt 0) (PInt 0) ''0.6 ''],
        Raised)"
proof -
  let ?pre = "[(0, ''J1'', 0, 3 / 5)]"
  have m: "(1::nat) < length (record_lines (split_on nl short_file))"
    by (simp add: demo_record_lines)
  have e: "map (eval demo_py) (take 1 (record_lines (split_on nl short_file)))
      = map (\<lambda>r. Some (rec_val r)) ?pre"
    by (simp add: demo_record_lines demo_eval)
  have i: "record_lines (split_on nl short_file) ! 1 = ''[1]''"
    by (simp add: demo_record_lines)
  have l: "last (record_lines (split_on nl short_file)) = ''[5, 'B', 1, 0.3]''"
    by (simp add: demo_record_lines)
  have b: "lacks_field demo_py (record_lines (split_on nl short_file) ! 1)"
    unfolding i by (rule demo_lacks_field(2))
  from malformed_line_leaves_earlier_ranges
    [OF read_more_files(1) more_checks(1,2) m e, THEN conjunct2, THEN conjunct1, THEN mp, OF b]
  have "readWeights demo_py demo_dest ''short.weights'' 0 =
       ([Select [''J1'', ''J2'', ''Mesh''],
         NewSkinCluster ''-tsb -bm 0 -nw 1 -mi 4 -dr 4.0-omi true -rui false'',
         Rename ''skinCluster1'' ''skinA'', SetAttrNw ''skinA'' 0,
         PruneWeights ''skinA'' ''Mesh'', Select [''skinA''], SetSize (PInt 6),
         SetWeights 1 (PInt 0) (PInt 0) (PInt 0) ''0.6 ''],
        Raised)"
    unfolding i l demo_line_vertex option.case plus_one.simps broken_ranges
    by (simp add: split_short_file demo_binding_effects rec_vertex_def)
  with read_more_files(1) m e i demo_eval(9) demo_lacks_field(2) show ?thesis by blast
qed

text \<open>
  The third record line of this file does not evaluate. The import ends with the exception
  after it has created and pruned the skinCluster and set the weights of vertex 0, the
  range of the records before the bad line that a change of vertex had closed.
\<close>

theorem malformed_line_partial_counterexample:
  "eval demo_py (record_lines (split_on nl broken_file) ! 2) = None
   \<and> readWeights demo_py demo_dest ''broken.weights'' 0 =
       ([Select [''J1'', ''J2'', ''Mesh''],
         NewSkinCluster ''-tsb -bm 0 -nw 1 -mi 4 -dr 4.0-omi true -rui false'',
         Rename ''skinCluster1'' ''skinA'', SetAttrNw ''skinA'' 0,
         PruneWeights ''skinA'' ''Mesh'', Select [''skinA''], SetSize (PInt 6),
         SetWeights 1 (PInt 0) (PInt 0) (PInt 0) ''0.6 ''],
        Raised)"
proof -
  let ?pre = "[(0, ''J1'', 0, 3 / 5), (1, ''J2'', 1, 1)]"
  have m: "(2::nat) < length (record_lines (split_on nl broken_file))"
    by (simp add: demo_record_lines)
  have e: "map (eval demo_py) (take 2 (record_lines (split_on nl broken_file)))
      = map (\<lambda>r. Some (rec_val r)) ?pre"
    by (simp add: demo_record_lines demo_eval)
  have i: "record_lines (split_on nl broken_file) ! 2 = ''[5, 'A', 0''"
    by (simp add: demo_record_lines)
  have l: "last (record_lines (split_on nl broken_file)) = ''[5, 'B', 1, 0.3]''"
    by (simp add: demo_record_lines)
  have b: "lacks_field demo_py (record_lines (split_on nl broken_file) ! 2)"
    unfolding i by (rule demo_lacks_field(1))
  from readWeights_raise [OF read_demo_dest(4) demo_checks(7,8) m e b]
  have "readWeights demo_py demo_dest ''broken.weights'' 0 =
       ([Select [''J1'', ''J2'', ''Mesh''],
         NewSkinCluster ''-tsb -bm 0 -nw 1 -mi 4 -dr 4.0-omi true -rui false'',
         Rename ''skinCluster1'' ''skinA'', SetAttrNw ''skinA'' 0,
         PruneWeights ''skinA'' ''Mesh'', Select [''skinA''], SetSize (PInt 6),
         SetWeights 1 (PInt 0) (PInt 0) (PInt 0) ''0.6 ''],
        Raised)"
    unfolding i l demo_line_vertex option.case plus_one.simps replay_acc0_runs broken_ranges
    by (simp add: split_broken_file demo_binding_effects)
  with i demo_eval(7) show ?thesis by simp
qed

text \<open>
  The last record line of this file is \<^verbatim>\<open>[7]\<close>. The size is set from it, to 8; both ranges
  before it are set, the second because the \<^verbatim>\<open>[0]\<close> of the line differs from vertex 1; then
  \<^verbatim>\<open>weights[2]\<close> raises.
\<close>

lemma short_last_line_import:
  "readWeights demo_py demo_dest ''sized.weights'' 0 =
     ([Select [''J1'', ''J2'', ''Mesh''],
       NewSkinCluster ''-tsb -bm 0 -nw 1 -mi 4 -dr 4.0-omi true -rui false'',
       Rename ''skinCluster1'' ''skinA'', SetAttrNw ''skinA'' 0,
       PruneWeights ''skinA'' ''Mesh'', Select [''skinA''], SetSize (PInt 8),
       SetWeights 1 (PInt 0) (PInt 0) (PInt 0) ''0.6 '',
       SetWeights 1 (PInt 1) (PInt 1) (PInt 1) ''1.0 ''],
      Raised)"
proof -
  let ?pre = "[(0, ''J1'', 0, 3 / 5), (1, ''J2'', 1, 1)]"
  have m: "(2::nat) < length (record_lines (split_on nl sized_file))"
    by (simp add: demo_record_lines)
  have e: "map (eval demo_py) (take 2 (record_lines (split_on nl sized_file)))
      = map (\<lambda>r. Some (rec_val r)) ?pre"
    by (simp add: demo_record_lines demo_eval)
  have i: "record_lines (split_on nl sized_file) ! 2 = ''[7]''"
    by (simp add: demo_record_lines)
  have l: "last (record_lines (split_on nl sized_file)) = ''[7]''"
    by (simp add: demo_record_lines)
  have b: "lacks_field demo_py (record_lines (split_on nl sized_file) ! 2)"
    unfolding i by (rule demo_lacks_field(3))
  from readWeights_raise [OF read_more_files(2) more_checks(3,4) m e b]
  show ?thesis
    unfolding i l demo_line_vertex option.case plus_one.simps replay_acc0_runs broken_ranges
    by (simp add: split_sized_file demo_binding_effects rec_vertex_def)
qed

text \<open>
  The last record line of this file has five elements and a string for the weight. It is
  read like a record: the import returns 1, and the string is in the weight string of the
  range of vertex 1.
\<close>

lemma malformed_line_accepted:
  "readable demo_py ''[1, 'J2', 1, 'x', 9]''"
  "readWeights demo_py demo_dest ''accepted.weights'' 0 =
     ([Select [''J1'', ''J2'', ''Mesh''],
       NewSkinCluster ''-tsb -bm 0 -nw 1 -mi 4 -dr 4.0-omi true -rui false'',
       Rename ''skinCluster1'' ''skinA'', SetAttrNw ''skinA'' 0,
       PruneWeights ''skinA'' ''Mesh'', Select [''skinA''], SetSize (PInt 2),
       SetWeights 1 (PInt 0) (PInt 0) (PInt 0) ''0.6 '',
       SetWeights 1 (PInt 1) (PInt 1) (PInt 1) ''x '',
       SetAttrNw ''skinA'' 1],
      RInt 1)"
proof -
  show "readable demo_py ''[1, 'J2', 1, 'x', 9]''" by (rule demo_readable(2))
  have n: "3 \<le> length (split_on nl accepted_file)" by (simp add: split_accepted_file)
  have u: "[3..<5] = [3, 4]" by (simp add: upt_rec)
  have a: "absorb demo_py acc0 (rec_val (0, ''J1'', 0, 3 / 5))
      = Some \<lparr>weightString = ''0.6 '', inflStart = PInt 0, inflEnd = PInt 0, setCount = 1,
         writeData = 0\<rparr>"
    by (simp add: absorb_def enter_range_def acc0_def rec_val_tuple demo_py_fields
        demo_str_float_def numeral_2_eq_2 numeral_3_eq_3)
  have b: "absorb demo_py (acc0\<lparr>writeData := 1\<rparr>)
       (PList [PInt 1, PStr ''J2'', PInt 1, PStr ''x'', PInt 9])
      = Some \<lparr>weightString = ''x '', inflStart = PInt 1, inflEnd = PInt 1, setCount = 1,
         writeData = 1\<rparr>"
    by (simp add: absorb_def enter_range_def acc0_def demo_py_fields
        numeral_2_eq_2 numeral_3_eq_3)
  have lp: "apply_loop demo_py (split_on nl accepted_file) [3, 4] acc0 =
      ([SetWeights 1 (PInt 0) (PInt 0) (PInt 0) ''0.6 '',
        SetWeights 1 (PInt 1) (PInt 1) (PInt 1) ''x ''], True)"
    by (simp add: split_accepted_file demo_eval a [unfolded rec_val_tuple] b flush_def
        rec_val_tuple Let_def)
  show "readWeights demo_py demo_dest ''accepted.weights'' 0 =
     ([Select [''J1'', ''J2'', ''Mesh''],
       NewSkinCluster ''-tsb -bm 0 -nw 1 -mi 4 -dr 4.0-omi true -rui false'',
       Rename ''skinCluster1'' ''skinA'', SetAttrNw ''skinA'' 0,
       PruneWeights ''skinA'' ''Mesh'', Select [''skinA''], SetSize (PInt 2),
       SetWeights 1 (PInt 0) (PInt 0) (PInt 0) ''0.6 '',
       SetWeights 1 (PInt 1) (PInt 1) (PInt 1) ''x '',
       SetAttrNw ''skinA'' 1],
      RInt 1)"
  proof -
    let ?wl = "split_on nl accepted_file"
    have ix: "[3..<length ?wl - 1] = [3, 4]"
      unfolding split_accepted_file using u by simp
    have w: "eval demo_py (?wl ! (length ?wl - 2))
        = Some (PList [PInt 1, PStr ''J2'', PInt 1, PStr ''x'', PInt 9])"
      by (simp add: split_accepted_file demo_eval)
    have s: "subscript (PList [PInt 1, PStr ''J2'', PInt 1, PStr ''x'', PInt 9]) 0
        = Some (PInt 1)"
      by simp
    have lp': "apply_loop demo_py ?wl [3..<length ?wl - 1] acc0 =
      ([SetWeights 1 (PInt 0) (PInt 0) (PInt 0) ''0.6 '',
        SetWeights 1 (PInt 1) (PInt 1) (PInt 1) ''x ''], True)"
      unfolding ix by (rule lp)
    show ?thesis
      unfolding readWeights_checked [OF read_more_files(3) more_checks(5,6) n]
        apply_weights_sized [OF w s plus_one.simps(1)] lp' Let_def
      by (simp add: split_accepted_file demo_headers bind_command_def demo_dest_fields)
  qed
qed

subsection \<open>Export and import\<close>

lemma written_single:
  assumes "selection sc = skinClusterNode # others"
    and "nodeType sc skinClusterNode = ''skinCluster''"
    and "influence sc \<noteq> []"
    and "geometry sc = shape # shapes"
    and "shape \<noteq> []"
    and "can_open fs fileName"
    and "rows_cover (length (influence sc)) (getWeights sc)"
  shows "written_file fileName (fst (writeWeights p fs sc fileName 0)) =
     Some (join_with [nl] (single_lines p sc skinClusterNode (influence sc) shape))"
  unfolding writeWeights_single [OF assms] by (simp add: single_lines_def)

lemma record_lines_single:
  "record_lines (single_lines p sc skinClusterNode infls shape) =
     map (str_list p) (table_records infls (getWeights sc))"
  by (simp add: single_lines_def record_lines_def butlast_append)

lemma single_lines_header:
  "single_lines p sc skinClusterNode infls shape ! 0 = join_with '' '' (infls @ [shape])"
  "single_lines p sc skinClusterNode infls shape \<noteq> []"
  by (simp_all add: single_lines_def)

lemma table_records_weights:
  assumes "r \<in> set (table_records infls tbl)"
  shows "rec_weight r \<noteq> 0" and "0 \<le> rec_infl r"
  using assms by (auto simp: set_table_records)

text \<open>
  A skinCluster with at least one positive weight is exported to a file, and the file is
  imported. If no line of the file holds a line feed, if \<^verbatim>\<open>eval\<close> gives back each record
  list that \<^verbatim>\<open>str\<close> printed, and if the export and the import pass their checks, then the
  import returns 1 after it has set, for each vertex with a positive weight, the range from
  its first to its last influence with a positive weight, the weights printed by \<^verbatim>\<open>str\<close>.
\<close>

lemma import_of_export:
  assumes "selection sc = skinClusterNode # others"
    and "nodeType sc skinClusterNode = ''skinCluster''"
    and "influence sc \<noteq> []"
    and "geometry sc = shape # shapes"
    and "shape \<noteq> []"
    and "can_open fs fileName"
    and "rows_cover (length (influence sc)) (getWeights sc)"
    and "read_file d fileName = written_file fileName (fst (writeWeights p fs sc fileName 0))"
    and "list_all (\<lambda>l. nl \<notin> set l) (single_lines p sc skinClusterNode (influence sc) shape)"
    and "list_all (\<lambda>r. eval p (str_list p r) = Some (rec_val r))
           (table_records (influence sc) (getWeights sc))"
    and "table_records (influence sc) (getWeights sc) \<noteq> []"
    and "select_ok d (header_objects (join_with '' '' (influence sc @ [shape])) ro)"
    and "\<not> already_bound d (header_shape (join_with '' '' (influence sc @ [shape])))"
  shows "snd (readWeights p d fileName ro) = RInt 1"
    and "range_commands (fst (readWeights p d fileName ro))
       = map (run_command p) (vertex_runs (table_records (influence sc) (getWeights sc)))"
proof -
  let ?lines = "single_lines p sc skinClusterNode (influence sc) shape"
  let ?data = "join_with [nl] ?lines"
  let ?recs = "table_records (influence sc) (getWeights sc)"
  have rf: "read_file d fileName = Some ?data"
    unfolding assms(8) by (rule written_single [OF assms(1-7)])
  have sp: "split_on nl ?data = ?lines"
    using assms(9) by (intro split_join single_lines_header(2)) (simp add: list_all_iff)
  have sel: "select_ok d (header_objects (split_on nl ?data ! 0) ro)"
    and nb: "\<not> already_bound d (header_shape (split_on nl ?data ! 0))"
    unfolding sp single_lines_header(1) by (rule assms(12), rule assms(13))
  have ev: "map (eval p) (record_lines (split_on nl ?data)) = map (\<lambda>r. Some (rec_val r)) ?recs"
    unfolding sp record_lines_single map_map
    by (rule map_cong [OF refl]) (use assms(10) in \<open>simp add: list_all_iff\<close>)
  have so: "sorted_wrt rec_before ?recs" by (rule sorted_table_records)
  have nn: "list_all (\<lambda>r. 0 \<le> rec_infl r) ?recs"
    using table_records_weights(2) by (simp add: list_all_iff)
  note r = import_replayed_sorted [OF rf sel nb ev assms(11) so nn]
  show "snd (readWeights p d fileName ro) = RInt 1"
    unfolding r by simp
  show "range_commands (fst (readWeights p d fileName ro)) = map (run_command p) (vertex_runs ?recs)"
    unfolding r fst_conv by (rule range_commands_import) (simp add: list_all_iff)
qed

text \<open>
  A file with no record line: the three lines of the header and the empty last line. The
  line before the last, which the import evaluates for the index of the last component, is
  the line of the attributes.
\<close>

lemma import_without_record_line:
  assumes "read_file d fileName = Some weightData"
    and "select_ok d (header_objects (split_on nl weightData ! 0) ro)"
    and "\<not> already_bound d (header_shape (split_on nl weightData ! 0))"
    and "length (split_on nl weightData) = 4"
    and "eval p (split_on nl weightData ! 2) = None"
  shows "readWeights p d fileName ro = (binding_effects d (split_on nl weightData) ro, Raised)"
proof -
  have n: "3 \<le> length (split_on nl weightData)" using assms(4) by simp
  show ?thesis
    unfolding readWeights_checked [OF assms(1-3) n]
    using assms(4,5) by (simp add: apply_weights_def binding_effects_def)
qed

lemma demo_single_lines:
  "single_lines demo_py demo_skin ''skinA'' (influence demo_skin) ''Mesh'' =
     [''J1 J2 Mesh'', ''skinA'', ''-nw 1 -mi 4 -dr 4.0'',
      ''[0, 'J1', 0, 0.6]'', ''[0, 'J2', 1, 0.4]'', ''[1, 'J2', 1, 1.0]'', '''']"
  unfolding single_lines_def demo_table_records demo_str_list_lines demo_params_line
  by (simp add: demo_skin_fields)

lemma demo_export:
  "writeWeights demo_py demo_fsys demo_skin ''skin.weights'' 0 =
     ([Select [''Mesh''], OpenFile ''skin.weights'', WriteFile ''skin.weights'' demo_file],
      RInt 1)"
proof -
  have a: "selection demo_skin = ''skinA'' # []" "nodeType demo_skin ''skinA'' = ''skinCluster''"
    "influence demo_skin \<noteq> []" "geometry demo_skin = ''Mesh'' # []" "''Mesh'' \<noteq> []"
    "can_open demo_fsys ''skin.weights''"
    "rows_cover (length (influence demo_skin)) (getWeights demo_skin)"
    by (simp_all add: demo_skin_fields demo_fsys_def rows_cover_def)
  show ?thesis
    unfolding writeWeights_single [OF a] demo_single_file ..
qed

text \<open>The export and the import of the scene of the specification's example.\<close>

lemma demo_round_trip:
  "writeWeights demo_py demo_fsys demo_skin ''skin.weights'' 0 =
     ([Select [''Mesh''], OpenFile ''skin.weights'', WriteFile ''skin.weights'' demo_file],
      RInt 1)"
  "read_file demo_dest ''skin.weights'' = Some demo_file"
  "readWeights demo_py demo_dest ''skin.weights'' 0 =
     ([Select [''J1'', ''J2'', ''Mesh''],
       NewSkinCluster ''-tsb -bm 0 -nw 1 -mi 4 -dr 4.0-omi true -rui false'',
       Rename ''skinCluster1'' ''skinA'', SetAttrNw ''skinA'' 0,
       PruneWeights ''skinA'' ''Mesh'', Select [''skinA''], SetSize (PInt 2),
       SetWeights 2 (PInt 0) (PInt 0) (PInt 1) ''0.6 0.4 '',
       SetWeights 1 (PInt 1) (PInt 1) (PInt 1) ''1.0 '',
       SetAttrNw ''skinA'' 1],
      RInt 1)"
proof -
  let ?recs = "[(0, ''J1'', 0, 3 / 5), (0, ''J2'', 1, 2 / 5), (1, ''J2'', 1, 1)]"
  show "writeWeights demo_py demo_fsys demo_skin ''skin.weights'' 0 =
     ([Select [''Mesh''], OpenFile ''skin.weights'', WriteFile ''skin.weights'' demo_file],
      RInt 1)"
    by (rule demo_export)
  show "read_file demo_dest ''skin.weights'' = Some demo_file"
    by (rule read_demo_dest(1))
  have e: "map (eval demo_py) (record_lines (split_on nl demo_file))
      = map (\<lambda>r. Some (rec_val r)) ?recs"
    by (simp add: demo_record_lines demo_eval)
  have n: "?recs \<noteq> []" by simp
  have s: "sorted_wrt rec_before ?recs"
    by (simp add: rec_before_def rec_vertex_def rec_infl_def)
  have a: "list_all (\<lambda>r. 0 \<le> rec_infl r) ?recs" by (simp add: rec_infl_def)
  have c: "map (run_command demo_py) (vertex_runs ?recs) =
      [SetWeights 2 (PInt 0) (PInt 0) (PInt 1) ''0.6 0.4 '',
       SetWeights 1 (PInt 1) (PInt 1) (PInt 1) ''1.0 '']"
    by (simp add: vertex_runs_def run_command_def upto.simps demo_str_val
      rec_vertex_def rec_infl_def rec_weight_def)
  from import_replayed_sorted [OF read_demo_dest(1) demo_checks(1,2) e n s a]
  show "readWeights demo_py demo_dest ''skin.weights'' 0 =
     ([Select [''J1'', ''J2'', ''Mesh''],
       NewSkinCluster ''-tsb -bm 0 -nw 1 -mi 4 -dr 4.0-omi true -rui false'',
       Rename ''skinCluster1'' ''skinA'', SetAttrNw ''skinA'' 0,
       PruneWeights ''skinA'' ''Mesh'', Select [''skinA''], SetSize (PInt 2),
       SetWeights 2 (PInt 0) (PInt 0) (PInt 1) ''0.6 0.4 '',
       SetWeights 1 (PInt 1) (PInt 1) (PInt 1) ''1.0 '',
       SetAttrNw ''skinA'' 1],
      RInt 1)"
    unfolding c split_demo_file demo_binding_effects
    by (simp add: demo_dest_fields rec_vertex_def)
qed

lemma empty_export:
  "writeWeights demo_py demo_fsys no_vertex_skin ''empty.weights'' 0 =
     ([Select [''Mesh''], OpenFile ''empty.weights'', WriteFile ''empty.weights'' empty_file],
      RInt 1)"
proof -
  let ?sc = no_vertex_skin
  have f: "selection ?sc = [''skinA'']" "nodeType ?sc ''skinA'' = ''skinCluster''"
    "influence ?sc = [''J1'', ''J2'']" "geometry ?sc = [''Mesh'']"
    "normalizeWeights ?sc = 1" "maxInfluences ?sc = 4" "dropoff ?sc = 4" "getWeights ?sc = []"
    by (simp_all add: no_vertex_skin_def demo_skin_def)
  have a: "selection ?sc = ''skinA'' # []" "nodeType ?sc ''skinA'' = ''skinCluster''"
    "influence ?sc \<noteq> []" "geometry ?sc = ''Mesh'' # []" "''Mesh'' \<noteq> []"
    "can_open demo_fsys ''empty.weights''"
    "rows_cover (length (influence ?sc)) (getWeights ?sc)"
    using f by (auto simp: demo_fsys_def rows_cover_def)
  have t: "table_records (influence ?sc) (getWeights ?sc) = []"
    using f by (simp add: table_records_def enumerate_eq_zip)
  have p: "params_line demo_py ?sc = ''-nw 1 -mi 4 -dr 4.0''"
    using f by (simp add: params_line_def demo_py_fields demo_str_int_def demo_str_float_def)
  show ?thesis
    unfolding writeWeights_single [OF a] t p
    by (simp add: f empty_file_def)
qed

lemma empty_import:
  "readWeights demo_py demo_dest ''empty.weights'' 0 =
     ([Select [''J1'', ''J2'', ''Mesh''],
       NewSkinCluster ''-tsb -bm 0 -nw 1 -mi 4 -dr 4.0-omi true -rui false'',
       Rename ''skinCluster1'' ''skinA'', SetAttrNw ''skinA'' 0,
       PruneWeights ''skinA'' ''Mesh''],
      Raised)"
proof -
  have n: "length (split_on nl empty_file) = 4" by (simp add: split_empty_file)
  have e: "eval demo_py (split_on nl empty_file ! 2) = None"
    by (simp add: split_empty_file demo_eval)
  show ?thesis
    unfolding import_without_record_line [OF read_demo_dest(7) demo_checks(9,10) n e]
    by (simp add: split_empty_file demo_binding_effects)
qed

text \<open>
  C1. The skinCluster of the example, on a shape without any vertex: a weight table with
  no entry, so that every stored weight is positive. The export succeeds and writes the
  three lines of the header and the empty last line, no record line. The import of this
  file takes the line before the last, here the line of the attributes, for the last record:
  its \<^verbatim>\<open>eval\<close> raises, after the skinCluster has been created, renamed, set to no
  normalization and pruned. The import does not return 1, and what it leaves is not the
  table that was exported.
\<close>

theorem export_without_records_fails_on_import:
  "table_records (influence no_vertex_skin) (getWeights no_vertex_skin) = []
   \<and> writeWeights demo_py demo_fsys no_vertex_skin ''empty.weights'' 0 =
     ([Select [''Mesh''], OpenFile ''empty.weights'', WriteFile ''empty.weights'' empty_file],
      RInt 1)
   \<and> read_file demo_dest ''empty.weights'' = Some empty_file
   \<and> record_lines (split_on nl empty_file) = []
   \<and> split_on nl empty_file ! (length (split_on nl empty_file) - 2) = ''-nw 1 -mi 4 -dr 4.0''
   \<and> eval demo_py ''-nw 1 -mi 4 -dr 4.0'' = None
   \<and> readWeights demo_py demo_dest ''empty.weights'' 0 =
     ([Select [''J1'', ''J2'', ''Mesh''],
       NewSkinCluster ''-tsb -bm 0 -nw 1 -mi 4 -dr 4.0-omi true -rui false'',
       Rename ''skinCluster1'' ''skinA'', SetAttrNw ''skinA'' 0,
       PruneWeights ''skinA'' ''Mesh''],
      Raised)"
proof -
  have t: "table_records (influence no_vertex_skin) (getWeights no_vertex_skin) = []"
    by (simp add: no_vertex_skin_def table_records_def enumerate_eq_zip)
  have l: "split_on nl empty_file ! (length (split_on nl empty_file) - 2)
      = ''-nw 1 -mi 4 -dr 4.0''"
    by (simp add: split_empty_file)
  from t empty_export read_demo_dest(7) demo_record_lines(5) l demo_eval(8) empty_import
  show ?thesis by blast
qed

end
